theory Spec2Isabelle
  imports Complex_Main
begin

section \<open>JavaScript strings\<close>

text \<open>
  A JavaScript string is modelled as a \<^typ>\<open>string\<close> whose characters are the code units
  \<open>0..255\<close> (Latin-1). \<open>toLowerCase\<close> maps \<open>A..Z\<close> and the upper-case Latin-1 letters to
  their lower-case forms; \<open>isWhiteSpace\<close> is the part of the ECMAScript white-space and
  line-terminator set that lies in this range (what \<open>trim\<close> removes and \<open>\s\<close> matches).
\<close>

definition toLowerChar :: "char \<Rightarrow> char" where
  "toLowerChar c =
     (let n = (of_char c :: nat)
      in if (65 \<le> n \<and> n \<le> 90) \<or> (192 \<le> n \<and> n \<le> 222 \<and> n \<noteq> 215)
         then char_of (n + 32) else c)"

definition toLowerCase :: "string \<Rightarrow> string" where
  "toLowerCase s = map toLowerChar s"

definition isWhiteSpace :: "char \<Rightarrow> bool" where
  "isWhiteSpace c =
     (c = CHR 0x09 \<or> c = CHR 0x0A \<or> c = CHR 0x0B \<or> c = CHR 0x0C \<or> c = CHR 0x0D \<or>
      c = CHR 0x20 \<or> c = CHR 0xA0)"

definition trim :: "string \<Rightarrow> string" where
  "trim s = rev (dropWhile isWhiteSpace (rev (dropWhile isWhiteSpace s)))"

fun startsWith :: "string \<Rightarrow> string \<Rightarrow> bool" where
  "startsWith s [] = True"
| "startsWith [] (p # ps) = False"
| "startsWith (c # cs) (p # ps) = (c = p \<and> startsWith cs ps)"

text \<open>\<open>str_includes s p\<close> is \<open>s.includes(p)\<close>: \<open>p\<close> occurs at some position of \<open>s\<close>.\<close>

fun str_includes :: "string \<Rightarrow> string \<Rightarrow> bool" where
  "str_includes [] p = (p = [])"
| "str_includes (c # cs) p = (startsWith (c # cs) p \<or> str_includes cs p)"

section \<open>Errors and the reasoning oracle\<close>

text \<open>
  A thrown value is either an \<open>Error\<close> instance, with its message and the HTTP status of
  its \<open>response\<close> property when it has one, or some other value. The oracle (the
  generative model behind \<open>generateContent\<close> and \<open>model.invoke\<close>) is opaque: its
  \<open>k\<close>-th call either replies with a text or throws. A counter of the calls made so far
  is threaded through the code that uses it.
\<close>

datatype js_error = Error string "nat option" | Thrown string

datatype oracle_outcome = Reply string | Raise js_error

type_synonym reasoning_oracle = "nat \<Rightarrow> oracle_outcome"

fun error_message :: "js_error \<Rightarrow> string" where
  "error_message (Error m st) = m"
| "error_message (Thrown v) = v"

section \<open>Query classification\<close>

datatype query_type = Simple_query | Complex_query | Tool_specific_query

record classification =
  qtype :: query_type
  action :: "string option"
  tool :: "string option"

text \<open>The enhanced classifier (\<open>classifyQuery\<close> of the enhanced agent): keyword rules only.\<close>

definition classifyQuery_enhanced :: "string \<Rightarrow> classification" where
  "classifyQuery_enhanced input =
     (let lowerInput = toLowerCase input
      in if str_includes lowerInput ''list tables'' \<or> str_includes lowerInput ''show tables'' \<or>
            str_includes lowerInput ''what tables''
         then \<lparr>qtype = Tool_specific_query, action = None, tool = Some ''listTables''\<rparr>
         else if str_includes lowerInput ''schema'' \<or> str_includes lowerInput ''structure'' \<or>
            str_includes lowerInput ''columns''
         then \<lparr>qtype = Tool_specific_query, action = None, tool = Some ''getSchema''\<rparr>
         else if str_includes lowerInput ''sql'' \<or> str_includes lowerInput ''query'' \<or>
            str_includes lowerInput ''select'' \<or> str_includes lowerInput ''analyze'' \<or>
            str_includes lowerInput ''data'' \<or> str_includes lowerInput ''find''
         then \<lparr>qtype = Tool_specific_query, action = None, tool = Some ''langchain''\<rparr>
         else if str_includes lowerInput ''count'' \<or> str_includes lowerInput ''how many'' \<or>
            str_includes lowerInput ''latest''
         then \<lparr>qtype = Simple_query, action = Some ''count_records'', tool = None\<rparr>
         else \<lparr>qtype = Complex_query, action = None, tool = None\<rparr>)"

text \<open>
  The tail shared by the hybrid classifiers: the oracle is asked, and its answer, trimmed and
  lower-cased, is tested for the prefix \<open>simple:\<close>; \<open>response.split(':')[1]\<close> is the text
  between the first colon and the next one. The call is not guarded: a throwing oracle
  makes \<open>classifyQuery\<close> throw.
\<close>

definition askClassifier :: "reasoning_oracle \<Rightarrow> nat \<Rightarrow> (js_error + classification) \<times> nat" where
  "askClassifier orc n =
     (case orc n of
        Raise e \<Rightarrow> (Inl e, Suc n)
      | Reply content \<Rightarrow>
          (let response = toLowerCase (trim content)
           in if startsWith response ''simple:''
              then (Inr \<lparr>qtype = Simple_query,
                         action = Some (takeWhile (\<lambda>c. c \<noteq> CHR '':'') (drop 7 response)),
                         tool = None\<rparr>, Suc n)
              else (Inr \<lparr>qtype = Complex_query, action = None, tool = None\<rparr>, Suc n)))"

text \<open>The hybrid classifier (\<open>classifyQuery\<close> of the hybrid agent with telemetry analysis).\<close>

definition classifyQuery_hybrid :: "reasoning_oracle \<Rightarrow> string \<Rightarrow> nat \<Rightarrow> (js_error + classification) \<times> nat" where
  "classifyQuery_hybrid orc input n =
     (let lowerInput = toLowerCase input
      in if str_includes lowerInput ''maximum'' \<or> str_includes lowerInput ''max'' \<or>
            str_includes lowerInput ''average'' \<or> str_includes lowerInput ''avg'' \<or>
            str_includes lowerInput ''range'' \<or> str_includes lowerInput ''performance'' \<or>
            str_includes lowerInput ''current'' \<or> str_includes lowerInput ''temperature'' \<or>
            str_includes lowerInput ''voltage''
         then (Inr \<lparr>qtype = Complex_query, action = None, tool = None\<rparr>, n)
         else if str_includes lowerInput ''table'' \<or> str_includes lowerInput ''schema'' \<or>
            str_includes lowerInput ''structure'' \<or> str_includes lowerInput ''column'' \<or>
            str_includes lowerInput ''database structure'' \<or>
            str_includes lowerInput ''how many tables'' \<or> str_includes lowerInput ''what tables''
         then (Inr \<lparr>qtype = Complex_query, action = None, tool = None\<rparr>, n)
         else if (str_includes lowerInput ''device'' \<or> str_includes lowerInput ''devices'') \<and>
            \<not> str_includes lowerInput ''current'' \<and> \<not> str_includes lowerInput ''temperature'' \<and>
            \<not> str_includes lowerInput ''voltage''
         then (Inr \<lparr>qtype = Complex_query, action = None, tool = None\<rparr>, n)
         else if str_includes lowerInput ''sql'' \<or> str_includes lowerInput ''query'' \<or>
            str_includes lowerInput ''select''
         then (Inr \<lparr>qtype = Complex_query, action = None, tool = None\<rparr>, n)
         else if str_includes lowerInput ''compare'' \<or> str_includes lowerInput ''analyze'' \<or>
            str_includes lowerInput ''relationship'' \<or> str_includes lowerInput ''between'' \<or>
            str_includes lowerInput ''and'' \<or> str_includes lowerInput ''then''
         then (Inr \<lparr>qtype = Complex_query, action = None, tool = None\<rparr>, n)
         else askClassifier orc n)"

text \<open>The earlier hybrid classifier, without the metric and device rules.\<close>

definition classifyQuery_hybrid_v1 :: "reasoning_oracle \<Rightarrow> string \<Rightarrow> nat \<Rightarrow> (js_error + classification) \<times> nat" where
  "classifyQuery_hybrid_v1 orc input n =
     (let lowerInput = toLowerCase input
      in if str_includes lowerInput ''table'' \<or> str_includes lowerInput ''schema'' \<or>
            str_includes lowerInput ''structure'' \<or> str_includes lowerInput ''column'' \<or>
            str_includes lowerInput ''database structure'' \<or>
            str_includes lowerInput ''how many tables'' \<or> str_includes lowerInput ''what tables''
         then (Inr \<lparr>qtype = Complex_query, action = None, tool = None\<rparr>, n)
         else if str_includes lowerInput ''sql'' \<or> str_includes lowerInput ''query'' \<or>
            str_includes lowerInput ''select''
         then (Inr \<lparr>qtype = Complex_query, action = None, tool = None\<rparr>, n)
         else if str_includes lowerInput ''compare'' \<or> str_includes lowerInput ''analyze'' \<or>
            str_includes lowerInput ''relationship'' \<or> str_includes lowerInput ''between'' \<or>
            str_includes lowerInput ''and'' \<or> str_includes lowerInput ''then''
         then (Inr \<lparr>qtype = Complex_query, action = None, tool = None\<rparr>, n)
         else askClassifier orc n)"

text \<open>An oracle that answers every call with HTTP 429, used as a test input.\<close>

definition rate_limited_oracle :: reasoning_oracle where
  "rate_limited_oracle k = Raise (Error ''Too Many Requests'' (Some 429))"

section \<open>The SQL query tools\<close>

text \<open>
  The store behind \<open>sequelize.query\<close> is opaque: \<open>query sql\<close> is the text of its rows or
  the error it throws. The list of statements handed to it is the effect that is recorded.
\<close>

type_synonym sql_store = "string \<Rightarrow> js_error + string"

text \<open>\<open>SmartWeldSQLTool._call\<close> of the advanced toolkit.\<close>

definition SmartWeldSQLTool_call_advanced ::
  "sql_store \<Rightarrow> string \<Rightarrow> string list \<Rightarrow> string \<times> string list" where
  "SmartWeldSQLTool_call_advanced query input executed =
     (let trimmedQuery = trim input
      in if \<not> startsWith (toLowerCase trimmedQuery) ''select''
         then (''Error: Only SELECT queries are allowed for security reasons.'', executed)
         else (case query trimmedQuery of
                 Inr result \<Rightarrow>
                   (''Query executed successfully. Results:'' @ [CHR 0x0A] @ result,
                    executed @ [trimmedQuery])
               | Inl error \<Rightarrow> (''SQL Error: '' @ error_message error, executed @ [trimmedQuery])))"

text \<open>\<open>SmartWeldSQLTool._call\<close> of \<open>services/sql-toolkit.ts\<close>.\<close>

definition SmartWeldSQLTool_call ::
  "sql_store \<Rightarrow> string \<Rightarrow> string list \<Rightarrow> string \<times> string list" where
  "SmartWeldSQLTool_call query input executed =
     (case query input of
        Inr result \<Rightarrow> (result, executed @ [input])
      | Inl error \<Rightarrow> (''Error executing query: '' @ error_message error, executed @ [input]))"

text \<open>A store that accepts every statement and returns no rows, used as a test input.\<close>

definition accepting_store :: sql_store where
  "accepting_store sql = Inr ''[]''"

text \<open>An oracle that answers every call with a sentence, used as a test input.\<close>

definition chatty_oracle :: reasoning_oracle where
  "chatty_oracle k = Reply ''I am not sure.''"

section \<open>JavaScript numbers\<close>

text \<open>
  A JavaScript number is a real number, an infinity or \<open>NaN\<close>; a field that is missing
  reads as \<open>undefined\<close>, which \<open>>\<close> and the arithmetic operators convert to \<open>NaN\<close>.
  Rounding to double precision, overflow and the sign of zero are not modelled.
\<close>

datatype jsnum = Fin real | PInf | NInf | NaN

fun js_gt :: "jsnum \<Rightarrow> jsnum \<Rightarrow> bool" where
  "js_gt (Fin a) (Fin b) = (b < a)"
| "js_gt (Fin a) NInf = True"
| "js_gt PInf (Fin b) = True"
| "js_gt PInf NInf = True"
| "js_gt a b = False"

fun js_sub :: "jsnum \<Rightarrow> jsnum \<Rightarrow> jsnum" where
  "js_sub (Fin a) (Fin b) = Fin (a - b)"
| "js_sub (Fin a) PInf = NInf"
| "js_sub (Fin a) NInf = PInf"
| "js_sub PInf (Fin b) = PInf"
| "js_sub PInf NInf = PInf"
| "js_sub NInf (Fin b) = NInf"
| "js_sub NInf PInf = NInf"
| "js_sub a b = NaN"

fun js_div :: "jsnum \<Rightarrow> jsnum \<Rightarrow> jsnum" where
  "js_div (Fin a) (Fin b) =
     (if b = 0 then (if a = 0 then NaN else if 0 < a then PInf else NInf) else Fin (a / b))"
| "js_div (Fin a) PInf = Fin 0"
| "js_div (Fin a) NInf = Fin 0"
| "js_div PInf (Fin b) = (if 0 \<le> b then PInf else NInf)"
| "js_div NInf (Fin b) = (if 0 \<le> b then NInf else PInf)"
| "js_div a b = NaN"

section \<open>JSON values and \<open>JSON.parse\<close>\<close>

text \<open>
  The value of a JSON text. An object keeps its members in the order of the text; reading a
  property takes the last member with that key. A number is its exact decimal value. An
  escape \<open>\uXXXX\<close> above \<open>00FF\<close> is outside the strings modelled here and is rejected.
  \<open>JSON_parse\<close> is \<open>None\<close> where \<open>JSON.parse\<close> throws a SyntaxError.
\<close>

datatype json = JNull | JBool bool | JNum jsnum | JStr string | JArr "json list"
  | JObj "(string \<times> json) list"

definition isDigit :: "char \<Rightarrow> bool" where
  "isDigit c = (48 \<le> (of_char c :: nat) \<and> (of_char c :: nat) \<le> 57)"

definition digits_value :: "string \<Rightarrow> nat" where
  "digits_value ds = foldl (\<lambda>a c. 10 * a + ((of_char c :: nat) - 48)) 0 ds"

definition parse_exponent :: "string \<Rightarrow> int option" where
  "parse_exponent s =
     (case s of
        [] \<Rightarrow> Some 0
      | e # r \<Rightarrow>
          if e = CHR ''e'' \<or> e = CHR ''E'' then
            (let neg = (case r of [] \<Rightarrow> False | c # _ \<Rightarrow> c = CHR ''-'');
                 ds = (case r of [] \<Rightarrow> [] | c # r' \<Rightarrow> if c = CHR ''+'' \<or> c = CHR ''-'' then r' else r)
             in if ds \<noteq> [] \<and> list_all isDigit ds
                then Some (if neg then - int (digits_value ds) else int (digits_value ds))
                else None)
          else None)"

definition parse_number :: "string \<Rightarrow> real option" where
  "parse_number s =
     (let neg = (case s of [] \<Rightarrow> False | c # _ \<Rightarrow> c = CHR ''-'');
          s1 = (if neg then tl s else s);
          ip = takeWhile isDigit s1;
          r1 = dropWhile isDigit s1;
          dot = (case r1 of [] \<Rightarrow> False | c # _ \<Rightarrow> c = CHR ''.'');
          fp = (if dot then takeWhile isDigit (tl r1) else []);
          r2 = (if dot then dropWhile isDigit (tl r1) else r1)
      in if ip = [] \<or> (1 < length ip \<and> take 1 ip = ''0'') \<or> (dot \<and> fp = []) then None
         else (case parse_exponent r2 of
                 None \<Rightarrow> None
               | Some ex \<Rightarrow>
                   (let m = real (digits_value (ip @ fp));
                        e = ex - int (length fp);
                        v = (if 0 \<le> e then m * 10 ^ nat e else m / 10 ^ nat (- e))
                    in Some (if neg then - v else v))))"

definition literal_value :: "string \<Rightarrow> json option" where
  "literal_value s =
     (if s = ''true'' then Some (JBool True)
      else if s = ''false'' then Some (JBool False)
      else if s = ''null'' then Some JNull
      else map_option (\<lambda>r. JNum (Fin r)) (parse_number s))"

text \<open>Tokens, and a lexer that reads the text one character at a time.\<close>

datatype token = LBrace | RBrace | LBracket | RBracket | Colon | Comma | Atom json

datatype lex_mode = Idle | InString string | InEscape string | InUnicode string nat nat | InLiteral string

definition isJsonSpace :: "char \<Rightarrow> bool" where
  "isJsonSpace c = (c = CHR 0x20 \<or> c = CHR 0x09 \<or> c = CHR 0x0A \<or> c = CHR 0x0D)"

definition isLiteralChar :: "char \<Rightarrow> bool" where
  "isLiteralChar c =
     (let n = (of_char c :: nat)
      in (48 \<le> n \<and> n \<le> 57) \<or> (65 \<le> n \<and> n \<le> 90) \<or> (97 \<le> n \<and> n \<le> 122) \<or>
         c = CHR ''+'' \<or> c = CHR ''-'' \<or> c = CHR ''.'')"

definition hex_value :: "char \<Rightarrow> nat option" where
  "hex_value c =
     (let n = (of_char c :: nat)
      in if 48 \<le> n \<and> n \<le> 57 then Some (n - 48)
         else if 65 \<le> n \<and> n \<le> 70 then Some (n - 55)
         else if 97 \<le> n \<and> n \<le> 102 then Some (n - 87)
         else None)"

definition unescape :: "char \<Rightarrow> char option" where
  "unescape c =
     (if c = CHR 0x22 \<or> c = CHR 0x5C \<or> c = CHR ''/'' then Some c
      else if c = CHR ''b'' then Some (CHR 0x08)
      else if c = CHR ''f'' then Some (CHR 0x0C)
      else if c = CHR ''n'' then Some (CHR 0x0A)
      else if c = CHR ''r'' then Some (CHR 0x0D)
      else if c = CHR ''t'' then Some (CHR 0x09)
      else None)"

definition punctuation :: "char \<Rightarrow> token option" where
  "punctuation c =
     (if c = CHR ''{'' then Some LBrace
      else if c = CHR ''}'' then Some RBrace
      else if c = CHR ''['' then Some LBracket
      else if c = CHR '']'' then Some RBracket
      else if c = CHR '':'' then Some Colon
      else if c = CHR '','' then Some Comma
      else None)"

fun lex :: "lex_mode \<Rightarrow> token list \<Rightarrow> string \<Rightarrow> token list option" where
  "lex Idle toks [] = Some (rev toks)"
| "lex (InLiteral acc) toks [] =
     (case literal_value (rev acc) of None \<Rightarrow> None | Some v \<Rightarrow> Some (rev (Atom v # toks)))"
| "lex (InString acc) toks [] = None"
| "lex (InEscape acc) toks [] = None"
| "lex (InUnicode acc v k) toks [] = None"
| "lex Idle toks (c # cs) =
     (if isJsonSpace c then lex Idle toks cs
      else if c = CHR 0x22 then lex (InString []) toks cs
      else if isLiteralChar c then lex (InLiteral [c]) toks cs
      else (case punctuation c of None \<Rightarrow> None | Some t \<Rightarrow> lex Idle (t # toks) cs))"
| "lex (InLiteral acc) toks (c # cs) =
     (if isLiteralChar c then lex (InLiteral (c # acc)) toks cs
      else (case literal_value (rev acc) of
              None \<Rightarrow> None
            | Some v \<Rightarrow>
                if isJsonSpace c then lex Idle (Atom v # toks) cs
                else if c = CHR 0x22 then lex (InString []) (Atom v # toks) cs
                else (case punctuation c of
                        None \<Rightarrow> None
                      | Some t \<Rightarrow> lex Idle (t # Atom v # toks) cs)))"
| "lex (InString acc) toks (c # cs) =
     (if c = CHR 0x22 then lex Idle (Atom (JStr (rev acc)) # toks) cs
      else if c = CHR 0x5C then lex (InEscape acc) toks cs
      else if (of_char c :: nat) < 32 then None
      else lex (InString (c # acc)) toks cs)"
| "lex (InEscape acc) toks (c # cs) =
     (if c = CHR ''u'' then lex (InUnicode acc 0 0) toks cs
      else (case unescape c of None \<Rightarrow> None | Some d \<Rightarrow> lex (InString (d # acc)) toks cs))"
| "lex (InUnicode acc v k) toks (c # cs) =
     (case hex_value c of
        None \<Rightarrow> None
      | Some h \<Rightarrow>
          if k < 3 then lex (InUnicode acc (16 * v + h) (Suc k)) toks cs
          else if 16 * v + h < 256 then lex (InString (char_of (16 * v + h) # acc)) toks cs
          else None)"

text \<open>
  The parser reads the tokens one at a time, with a stack of the arrays and objects that
  are still open; an array frame holds its elements so far, an object frame its members so
  far and the key that waits for its value, all latest first.
\<close>

datatype frame = ArrFrame "json list" | ObjFrame "(string \<times> json) list" "string option"

datatype expect = WantValue | WantValueOrClose | WantKeyOrClose | WantKey | WantColon
  | WantCommaOrClose | Finished json

fun deliver :: "json \<Rightarrow> frame list \<Rightarrow> (expect \<times> frame list) option" where
  "deliver v [] = Some (Finished v, [])"
| "deliver v (ArrFrame xs # st) = Some (WantCommaOrClose, ArrFrame (v # xs) # st)"
| "deliver v (ObjFrame ms (Some k) # st) = Some (WantCommaOrClose, ObjFrame ((k, v) # ms) None # st)"
| "deliver v (ObjFrame ms None # st) = None"

definition open_value :: "token \<Rightarrow> frame list \<Rightarrow> (expect \<times> frame list) option" where
  "open_value t st =
     (case t of
        Atom v \<Rightarrow> deliver v st
      | LBracket \<Rightarrow> Some (WantValueOrClose, ArrFrame [] # st)
      | LBrace \<Rightarrow> Some (WantKeyOrClose, ObjFrame [] None # st)
      | _ \<Rightarrow> None)"

definition close_array :: "frame list \<Rightarrow> (expect \<times> frame list) option" where
  "close_array st = (case st of ArrFrame xs # st' \<Rightarrow> deliver (JArr (rev xs)) st' | _ \<Rightarrow> None)"

definition close_object :: "frame list \<Rightarrow> (expect \<times> frame list) option" where
  "close_object st =
     (case st of ObjFrame ms None # st' \<Rightarrow> deliver (JObj (rev ms)) st' | _ \<Rightarrow> None)"

definition read_key :: "token \<Rightarrow> frame list \<Rightarrow> (expect \<times> frame list) option" where
  "read_key t st =
     (case t of
        Atom (JStr k) \<Rightarrow>
          (case st of
             ObjFrame ms None # st' \<Rightarrow> Some (WantColon, ObjFrame ms (Some k) # st')
           | _ \<Rightarrow> None)
      | _ \<Rightarrow> None)"

definition next_member :: "frame list \<Rightarrow> (expect \<times> frame list) option" where
  "next_member st =
     (case st of
        ArrFrame xs # st' \<Rightarrow> Some (WantValue, st)
      | ObjFrame ms None # st' \<Rightarrow> Some (WantKey, st)
      | _ \<Rightarrow> None)"

definition parse_step :: "token \<Rightarrow> expect \<Rightarrow> frame list \<Rightarrow> (expect \<times> frame list) option" where
  "parse_step t e st =
     (case e of
        WantValue \<Rightarrow> open_value t st
      | WantValueOrClose \<Rightarrow> (if t = RBracket then close_array st else open_value t st)
      | WantKeyOrClose \<Rightarrow> (if t = RBrace then close_object st else read_key t st)
      | WantKey \<Rightarrow> read_key t st
      | WantColon \<Rightarrow> (if t = Colon then Some (WantValue, st) else None)
      | WantCommaOrClose \<Rightarrow>
          (if t = Comma then next_member st
           else if t = RBracket then close_array st
           else if t = RBrace then close_object st
           else None)
      | Finished v \<Rightarrow> None)"

fun parse_tokens :: "token list \<Rightarrow> expect \<Rightarrow> frame list \<Rightarrow> json option" where
  "parse_tokens [] (Finished v) [] = Some v"
| "parse_tokens [] e st = None"
| "parse_tokens (t # ts) e st =
     (case parse_step t e st of None \<Rightarrow> None | Some (e', st') \<Rightarrow> parse_tokens ts e' st')"

definition JSON_parse :: "string \<Rightarrow> json option" where
  "JSON_parse s = (case lex Idle [] s of None \<Rightarrow> None | Some toks \<Rightarrow> parse_tokens toks WantValue [])"

text \<open>Truthiness, property access on a parsed value, and \<open>x || d\<close>.\<close>

fun truthy :: "json \<Rightarrow> bool" where
  "truthy JNull = False"
| "truthy (JBool b) = b"
| "truthy (JNum (Fin r)) = (r \<noteq> 0)"
| "truthy (JNum NaN) = False"
| "truthy (JNum n) = True"
| "truthy (JStr s) = (s \<noteq> [])"
| "truthy (JArr xs) = True"
| "truthy (JObj ms) = True"

text \<open>
  \<open>get_property v k\<close> is \<open>v.k\<close> for the keys read here: a TypeError on \<open>null\<close>,
  the member of an object, and \<open>undefined\<close> (\<open>None\<close>) on everything else.
\<close>

fun get_property :: "json \<Rightarrow> string \<Rightarrow> js_error + json option" where
  "get_property JNull k = Inl (Error (''Cannot read properties of null (reading '' @ k @ '')'') None)"
| "get_property (JObj ms) k = Inr (map_of (rev ms) k)"
| "get_property v k = Inr None"

fun or_default :: "json option \<Rightarrow> json \<Rightarrow> json" where
  "or_default None d = d"
| "or_default (Some v) d = (if truthy v then v else d)"

section \<open>Cleaning the oracle's response\<close>

text \<open>
  \<open>strip_marker m s\<close> is \<open>s.replace(/m\s*/g, '')\<close> for a literal marker \<open>m\<close>: every
  occurrence of the marker, found from left to right, is removed with the white space
  that follows it.
\<close>

function strip_marker :: "string \<Rightarrow> string \<Rightarrow> string" where
  "strip_marker m [] = []"
| "strip_marker m (c # cs) =
     (if m \<noteq> [] \<and> startsWith (c # cs) m
      then strip_marker m (dropWhile isWhiteSpace (drop (length m) (c # cs)))
      else c # strip_marker m cs)"
  by pat_completeness auto
termination
proof (relation "measure (\<lambda>(m, s). length s)")
  show "wf (measure (\<lambda>(m, s). length s))" by simp
next
  fix m :: string and c :: char and cs :: string
  assume "m \<noteq> [] \<and> startsWith (c # cs) m"
  then have "0 < length m" by simp
  have "length (dropWhile isWhiteSpace (drop (length m) (c # cs))) \<le> length (drop (length m) (c # cs))"
    by (rule length_dropWhile_le)
  also have "\<dots> < length (c # cs)" using \<open>0 < length m\<close> by simp
  finally show "((m, dropWhile isWhiteSpace (drop (length m) (c # cs))), (m, c # cs))
      \<in> measure (\<lambda>(m, s). length s)" by simp
next
  fix m :: string and c :: char and cs :: string
  show "((m, cs), (m, c # cs)) \<in> measure (\<lambda>(m, s). length s)" by simp
qed

text \<open>The cleaning of \<open>analyzeHighCurrent\<close>, applied to the trimmed response text.\<close>

definition cleanResponse :: "string \<Rightarrow> string" where
  "cleanResponse responseText = trim (strip_marker ''```'' (strip_marker ''```json'' responseText))"

text \<open>The fenced wrapping of a text: \<open>```json\<close>, a line feed, the text, a line feed, \<open>```\<close>.\<close>

definition fenced :: "string \<Rightarrow> string" where
  "fenced t = ''```json'' @ [CHR 0x0A] @ t @ [CHR 0x0A] @ ''```''"

text \<open>
  The cleaning of the JSON-oriented agent's final message:
  \<open>content.replace(/```json\n?/g, '').replace(/```\n?$/g, '').trim()\<close>. The first
  replacement removes every \<open>```json\<close> with one line feed after it, the second a
  \<open>```\<close> (with one line feed after it) at the very end of the text.
\<close>

definition endsWith :: "string \<Rightarrow> string \<Rightarrow> bool" where
  "endsWith s p = startsWith (rev s) (rev p)"

fun drop_line_feed :: "string \<Rightarrow> string" where
  "drop_line_feed [] = []"
| "drop_line_feed (c # cs) = (if c = CHR 0x0A then cs else c # cs)"

function strip_json_marker :: "string \<Rightarrow> string" where
  "strip_json_marker [] = []"
| "strip_json_marker (c # cs) =
     (if startsWith (c # cs) ''```json''
      then strip_json_marker (drop_line_feed (drop 7 (c # cs)))
      else c # strip_json_marker cs)"
  by pat_completeness auto
termination
proof (relation "measure length")
  show "wf (measure length)" by simp
next
  fix c :: char and cs :: string
  have "length (drop_line_feed s) \<le> length s" for s by (cases s) auto
  then have "length (drop_line_feed (drop 7 (c # cs))) \<le> length (drop 7 (c # cs))" .
  also have "\<dots> < length (c # cs)" by simp
  finally show "(drop_line_feed (drop 7 (c # cs)), c # cs) \<in> measure length" by simp
next
  fix c :: char and cs :: string
  show "(cs, c # cs) \<in> measure length" by simp
qed

definition strip_final_fence :: "string \<Rightarrow> string" where
  "strip_final_fence s =
     (if endsWith s (''```'' @ [CHR 0x0A]) then take (length s - 4) s
      else if endsWith s ''```'' then take (length s - 3) s
      else s)"

definition cleanContent :: "string \<Rightarrow> string" where
  "cleanContent content = trim (strip_final_fence (strip_json_marker content))"

section \<open>Telemetry analysis\<close>

record TelemetryRecord =
  deviceId :: string
  timestamp :: string
  temperature :: jsnum
  voltage :: jsnum
  current :: jsnum
  gas :: jsnum

record TelemetryData = TelemetryRecord +
  CURRENT_THRESHOLD :: jsnum

record AnalysisResult =
  severity :: json
  possibleCause :: json
  recommendation :: json
  isCurrentExceeded :: bool
  analysisTimestamp :: nat

text \<open>A row of the table \<open>DeviceTelemetries\<close>: the readings and the analysis columns.\<close>

record StoredRow = TelemetryRecord +
  stored_severity :: "json option"
  stored_possibleCause :: "json option"
  stored_recommendation :: "json option"
  stored_isCurrentExceeded :: "bool option"
  stored_analysisTimestamp :: "nat option"

text \<open>
  The world the analysis runs in: the table, the number of store operations attempted and
  the number of oracle calls made. The environment decides what the \<open>k\<close>-th oracle call
  answers and whether the \<open>k\<close>-th store operation fails. Time is the number of
  milliseconds \<open>Date.now()\<close> returns; one call of a function sees one time.
\<close>

record world =
  rows :: "StoredRow list"
  store_ops :: nat
  oracle_calls :: nat

record environment =
  generateContent :: reasoning_oracle
  store_fault :: "nat \<Rightarrow> js_error option"

definition DeviceTelemetry_create ::
  "environment \<Rightarrow> StoredRow \<Rightarrow> world \<Rightarrow> (js_error + unit) \<times> world" where
  "DeviceTelemetry_create env r w =
     (case store_fault env (store_ops w) of
        Some e \<Rightarrow> (Inl e, w\<lparr>store_ops := Suc (store_ops w)\<rparr>)
      | None \<Rightarrow> (Inr (), w\<lparr>rows := rows w @ [r], store_ops := Suc (store_ops w)\<rparr>))"

definition LLM_Model :: string where
  "LLM_Model = ''gemini-1.5-flash''"

text \<open>
  The body of the \<open>try\<close> block: the oracle call, the cleaning and parsing of its answer,
  the defaults, and the insertion of the analysed record.
\<close>

definition try_analysis ::
  "environment \<Rightarrow> nat \<Rightarrow> TelemetryData \<Rightarrow> world \<Rightarrow> (js_error + AnalysisResult) \<times> world" where
  "try_analysis env now data w =
     (let isCurrentExceeded = js_gt (current data) (CURRENT_THRESHOLD data);
          w1 = w\<lparr>oracle_calls := Suc (oracle_calls w)\<rparr>
      in case generateContent env (oracle_calls w) of
           Raise e \<Rightarrow> (Inl e, w1)
         | Reply text \<Rightarrow>
             (let responseText = trim text;
                  cleanedResponse = cleanResponse responseText
              in case JSON_parse cleanedResponse of
                   None \<Rightarrow> (Inl (Error ''Unexpected token in JSON'' None), w1)
                 | Some parsedResult \<Rightarrow>
                     (case get_property parsedResult ''severity'' of
                        Inl e \<Rightarrow> (Inl e, w1)
                      | Inr sev \<Rightarrow>
                          (case get_property parsedResult ''possibleCause'' of
                             Inl e \<Rightarrow> (Inl e, w1)
                           | Inr cause \<Rightarrow>
                               (case get_property parsedResult ''recommendation'' of
                                  Inl e \<Rightarrow> (Inl e, w1)
                                | Inr rec \<Rightarrow>
                                    (let finalResult =
                                       \<lparr>severity = or_default sev (JStr ''UNKNOWN''),
                                        possibleCause = or_default cause (JStr ''Analysis incomplete''),
                                        recommendation =
                                          or_default rec (JStr ''Manual inspection required''),
                                        isCurrentExceeded = isCurrentExceeded,
                                        analysisTimestamp = now\<rparr>;
                                         recordToSave =
                                       \<lparr>deviceId = deviceId data,
                                        timestamp = timestamp data,
                                        temperature = temperature data,
                                        voltage = voltage data,
                                        current = current data,
                                        gas = gas data,
                                        stored_severity = Some (severity finalResult),
                                        stored_possibleCause = Some (possibleCause finalResult),
                                        stored_recommendation = Some (recommendation finalResult),
                                        stored_isCurrentExceeded = Some isCurrentExceeded,
                                        stored_analysisTimestamp =
                                          Some (analysisTimestamp finalResult)\<rparr>
                                     in case DeviceTelemetry_create env recordToSave w1 of
                                          (Inl e, w2) \<Rightarrow> (Inl e, w2)
                                        | (Inr u, w2) \<Rightarrow> (Inr finalResult, w2)))))))"

text \<open>The fallback of the \<open>catch\<close> block, from the threshold alone.\<close>

definition fallback_analysis :: "nat \<Rightarrow> TelemetryData \<Rightarrow> AnalysisResult" where
  "fallback_analysis now data =
     (let isCurrentExceeded = js_gt (current data) (CURRENT_THRESHOLD data);
          severity =
            (if isCurrentExceeded
             then (let exceedanceRatio =
                         js_div (js_sub (current data) (CURRENT_THRESHOLD data))
                           (CURRENT_THRESHOLD data)
                   in if js_gt exceedanceRatio (Fin 0.5) then ''CRITICAL'' else ''WARNING'')
             else ''NORMAL'')
      in \<lparr>severity = JStr severity,
          possibleCause = JStr ''AI analysis failed - using threshold-based fallback'',
          recommendation =
            JStr (if isCurrentExceeded
                  then ''Current exceeds threshold. Check equipment immediately.''
                  else ''All parameters appear normal.''),
          isCurrentExceeded = isCurrentExceeded,
          analysisTimestamp = now\<rparr>)"

text \<open>\<open>error instanceof Error\<close> with \<open>error.response.status === 429\<close>.\<close>

fun is_rate_limit :: "js_error \<Rightarrow> bool" where
  "is_rate_limit (Error m (Some st)) = (st = 429)"
| "is_rate_limit e = False"

text \<open>
  \<open>analyzeHighCurrent\<close>, with the final values of its local variables \<open>isApiBlocked\<close>
  and \<open>blockUntil\<close> made visible. Both are declared inside the function, so every call
  starts with \<open>false\<close> and \<open>0\<close>.
\<close>

definition analyzeHighCurrent_locals ::
  "environment \<Rightarrow> nat \<Rightarrow> TelemetryData \<Rightarrow> world \<Rightarrow> AnalysisResult \<times> (bool \<times> nat) \<times> world" where
  "analyzeHighCurrent_locals env now data w =
     (let isApiBlocked = False;
          blockUntil = (0::nat)
      in if isApiBlocked \<and> now < blockUntil
         then (\<lparr>severity = JStr ''UNKNOWN'',
                possibleCause =
                  JStr (''API blocked due to rate limits of using model '' @ LLM_Model),
                recommendation = JStr ''Wait until API is available'',
                isCurrentExceeded = js_gt (current data) (CURRENT_THRESHOLD data),
                analysisTimestamp = now\<rparr>, (isApiBlocked, blockUntil), w)
         else (case try_analysis env now data w of
                 (Inr finalResult, w') \<Rightarrow> (finalResult, (False, blockUntil), w')
               | (Inl error, w') \<Rightarrow>
                   (fallback_analysis now data,
                    (if is_rate_limit error then (True, now + 5 * 60 * 1000)
                     else (isApiBlocked, blockUntil)),
                    w')))"

definition analyzeHighCurrent ::
  "environment \<Rightarrow> nat \<Rightarrow> TelemetryData \<Rightarrow> world \<Rightarrow> AnalysisResult \<times> world" where
  "analyzeHighCurrent env now data w =
     (case analyzeHighCurrent_locals env now data w of (result, locals, w') \<Rightarrow> (result, w'))"

section \<open>Telemetry ingestion\<close>

text \<open>\<open>const CURRENT_THRESHOLD = 50\<close> of \<open>app.ts\<close>.\<close>

definition APP_CURRENT_THRESHOLD :: jsnum where
  "APP_CURRENT_THRESHOLD = Fin 50"

text \<open>The row that an inbound record becomes, and the readings of a row.\<close>

definition new_row :: "TelemetryRecord \<Rightarrow> StoredRow" where
  "new_row r =
     \<lparr>deviceId = deviceId r, timestamp = timestamp r, temperature = temperature r,
      voltage = voltage r, current = current r, gas = gas r,
      stored_severity = None, stored_possibleCause = None, stored_recommendation = None,
      stored_isCurrentExceeded = None, stored_analysisTimestamp = None\<rparr>"

definition readings :: "StoredRow \<Rightarrow> TelemetryRecord" where
  "readings row =
     \<lparr>deviceId = deviceId row, timestamp = timestamp row, temperature = temperature row,
      voltage = voltage row, current = current row, gas = gas row\<rparr>"

text \<open>
  \<open>DeviceTelemetry.bulkCreate(dataBatch, {returning: true})\<close>: one insert of all the rows;
  the instances returned are the positions of the new rows with their values.
\<close>

definition DeviceTelemetry_bulkCreate ::
  "environment \<Rightarrow> TelemetryRecord list \<Rightarrow> world \<Rightarrow>
     (js_error + (nat \<times> TelemetryRecord) list) \<times> world" where
  "DeviceTelemetry_bulkCreate env dataBatch w =
     (case store_fault env (store_ops w) of
        Some e \<Rightarrow> (Inl e, w\<lparr>store_ops := Suc (store_ops w)\<rparr>)
      | None \<Rightarrow>
          (Inr (zip [length (rows w) ..< length (rows w) + length dataBatch] dataBatch),
           w\<lparr>rows := rows w @ map new_row dataBatch, store_ops := Suc (store_ops w)\<rparr>))"

text \<open>
  \<open>data.update({severity, possibleCause, recommendation, analysisTimestamp})\<close> on the
  instance at position \<open>i\<close>; a position outside the table updates nothing.
\<close>

definition instance_update ::
  "environment \<Rightarrow> nat \<Rightarrow> AnalysisResult \<Rightarrow> world \<Rightarrow> (js_error + unit) \<times> world" where
  "instance_update env i aiAnalysis w =
     (case store_fault env (store_ops w) of
        Some e \<Rightarrow> (Inl e, w\<lparr>store_ops := Suc (store_ops w)\<rparr>)
      | None \<Rightarrow>
          (Inr (),
           w\<lparr>rows :=
                (if i < length (rows w)
                 then (rows w)[i := (rows w ! i)
                        \<lparr>stored_severity := Some (severity aiAnalysis),
                         stored_possibleCause := Some (possibleCause aiAnalysis),
                         stored_recommendation := Some (recommendation aiAnalysis),
                         stored_analysisTimestamp := Some (analysisTimestamp aiAnalysis)\<rparr>]
                 else rows w),
              store_ops := Suc (store_ops w)\<rparr>))"

text \<open>\<open>DeviceTelemetry.findAll\<close>: a read, whose rows are only logged.\<close>

definition DeviceTelemetry_findAll :: "environment \<Rightarrow> world \<Rightarrow> (js_error + unit) \<times> world" where
  "DeviceTelemetry_findAll env w =
     (case store_fault env (store_ops w) of
        Some e \<Rightarrow> (Inl e, w\<lparr>store_ops := Suc (store_ops w)\<rparr>)
      | None \<Rightarrow> (Inr (), w\<lparr>store_ops := Suc (store_ops w)\<rparr>))"

text \<open>The loop over the inserted rows of the handler of \<open>POST /api/telemetry\<close>.\<close>

fun analyzeInsertedRows ::
  "environment \<Rightarrow> nat \<Rightarrow> (nat \<times> TelemetryRecord) list \<Rightarrow> world \<Rightarrow> (js_error + unit) \<times> world" where
  "analyzeInsertedRows env now [] w = (Inr (), w)"
| "analyzeInsertedRows env now ((i, telemetry) # rest) w =
     (if js_gt (current telemetry) APP_CURRENT_THRESHOLD
      then (case analyzeHighCurrent env now
                   \<lparr>deviceId = deviceId telemetry,
                    timestamp = timestamp telemetry,
                    temperature = temperature telemetry,
                    voltage = voltage telemetry,
                    current = current telemetry,
                    gas = gas telemetry,
                    CURRENT_THRESHOLD = APP_CURRENT_THRESHOLD\<rparr> w of
              (aiAnalysis, w1) \<Rightarrow>
                (case instance_update env i aiAnalysis w1 of
                   (Inl error, w2) \<Rightarrow> (Inl error, w2)
                 | (Inr u, w2) \<Rightarrow> analyzeInsertedRows env now rest w2))
      else analyzeInsertedRows env now rest w)"

datatype http_response = Status200 string | Status500 js_error

text \<open>The handler of \<open>POST /api/telemetry\<close>.\<close>

definition post_api_telemetry ::
  "environment \<Rightarrow> nat \<Rightarrow> TelemetryRecord list \<Rightarrow> world \<Rightarrow> http_response \<times> world" where
  "post_api_telemetry env now dataBatch w =
     (case DeviceTelemetry_bulkCreate env dataBatch w of
        (Inl error, w1) \<Rightarrow> (Status500 error, w1)
      | (Inr insertedRows, w1) \<Rightarrow>
          (case analyzeInsertedRows env now insertedRows w1 of
             (Inl error, w2) \<Rightarrow> (Status500 error, w2)
           | (Inr u, w2) \<Rightarrow>
               (case DeviceTelemetry_findAll env w2 of
                  (Inl error, w3) \<Rightarrow> (Status500 error, w3)
                | (Inr u', w3) \<Rightarrow> (Status200 ''Data stored successfully.'', w3))))"

section \<open>Test inputs for the analysis\<close>

definition no_fault :: "nat \<Rightarrow> js_error option" where
  "no_fault k = None"

definition rate_limited_env :: environment where
  "rate_limited_env = \<lparr>generateContent = rate_limited_oracle, store_fault = no_fault\<rparr>"

definition reading :: "real \<Rightarrow> TelemetryData" where
  "reading c =
     \<lparr>deviceId = ''D1'', timestamp = ''2025-01-01T00:00:00Z'', temperature = Fin 90,
      voltage = Fin 24, current = Fin c, gas = Fin 3, CURRENT_THRESHOLD = Fin 50\<rparr>"

definition empty_world :: world where
  "empty_world = \<lparr>rows = [], store_ops = 0, oracle_calls = 0\<rparr>"

text \<open>An oracle whose answer is a fenced JSON object with a severity outside the four levels.\<close>

definition high_oracle :: reasoning_oracle where
  \<open>high_oracle k =
     Reply (fenced ''{"severity": "HIGH", "possibleCause": "Overload", "recommendation": "Stop"}'')\<close>

definition high_env :: environment where
  "high_env = \<lparr>generateContent = high_oracle, store_fault = no_fault\<rparr>"

text \<open>An inbound record, and a store whose second operation fails.\<close>

definition inbound :: "real \<Rightarrow> TelemetryRecord" where
  "inbound c =
     \<lparr>deviceId = ''D1'', timestamp = ''2025-01-01T00:00:00Z'', temperature = Fin 90,
      voltage = Fin 24, current = Fin c, gas = Fin 3\<rparr>"

definition fault_at_second :: "nat \<Rightarrow> js_error option" where
  "fault_at_second k = (if k = 1 then Some (Error ''SQLITE_BUSY'' None) else None)"

definition failing_update_env :: environment where
  "failing_update_env = \<lparr>generateContent = rate_limited_oracle, store_fault = fault_at_second\<rparr>"

text \<open>A store whose first operation fails.\<close>

definition fault_at_first :: "nat \<Rightarrow> js_error option" where
  "fault_at_first k = (if k = 0 then Some (Error ''SQLITE_BUSY'' None) else None)"

definition rejecting_env :: environment where
  "rejecting_env = \<lparr>generateContent = rate_limited_oracle, store_fault = fault_at_first\<rparr>"

section \<open>Properties of the classifiers\<close>

lemma askClassifier_reply:
  "orc n = Reply r \<Longrightarrow> \<exists>c. askClassifier orc n = (Inr c, Suc n)"
  by (simp add: askClassifier_def Let_def)

lemma askClassifier_unparseable:
  "orc n = Reply r \<Longrightarrow> \<not> startsWith (toLowerCase (trim r)) ''simple:'' \<Longrightarrow>
   askClassifier orc n = (Inr \<lparr>qtype = Complex_query, action = None, tool = None\<rparr>, Suc n)"
  by (simp add: askClassifier_def Let_def)

lemma classifyQuery_hybrid_reply:
  "orc n = Reply r \<Longrightarrow> \<exists>c m. classifyQuery_hybrid orc input n = (Inr c, m)"
  using askClassifier_reply [of orc n r] by (auto simp add: classifyQuery_hybrid_def Let_def)

lemma classifyQuery_hybrid_v1_reply:
  "orc n = Reply r \<Longrightarrow> \<exists>c m. classifyQuery_hybrid_v1 orc input n = (Inr c, m)"
  using askClassifier_reply [of orc n r] by (auto simp add: classifyQuery_hybrid_v1_def Let_def)

lemma classifyQuery_hybrid_unparseable:
  "orc n = Reply r \<Longrightarrow> \<not> startsWith (toLowerCase (trim r)) ''simple:'' \<Longrightarrow>
   fst (classifyQuery_hybrid orc input n) = Inr \<lparr>qtype = Complex_query, action = None, tool = None\<rparr>"
  using askClassifier_unparseable [of orc n r] by (auto simp add: classifyQuery_hybrid_def Let_def)

lemma classifyQuery_hybrid_v1_unparseable:
  "orc n = Reply r \<Longrightarrow> \<not> startsWith (toLowerCase (trim r)) ''simple:'' \<Longrightarrow>
   fst (classifyQuery_hybrid_v1 orc input n) = Inr \<lparr>qtype = Complex_query, action = None, tool = None\<rparr>"
  using askClassifier_unparseable [of orc n r] by (auto simp add: classifyQuery_hybrid_v1_def Let_def)

lemma askClassifier_raise:
  "orc n = Raise e \<Longrightarrow> askClassifier orc n = (Inl e, Suc n)"
  by (simp add: askClassifier_def)

lemma classifyQuery_hybrid_cases:
  "classifyQuery_hybrid orc input n = (Inr \<lparr>qtype = Complex_query, action = None, tool = None\<rparr>, n) \<or>
   classifyQuery_hybrid orc input n = askClassifier orc n"
  by (simp add: classifyQuery_hybrid_def Let_def)

lemma classifyQuery_hybrid_v1_cases:
  "classifyQuery_hybrid_v1 orc input n = (Inr \<lparr>qtype = Complex_query, action = None, tool = None\<rparr>, n) \<or>
   classifyQuery_hybrid_v1 orc input n = askClassifier orc n"
  by (simp add: classifyQuery_hybrid_v1_def Let_def)

text \<open>
  C6. In the enhanced classifier the table-listing rule is the first one: a question whose
  lower-cased text contains \<open>list tables\<close> or \<open>show tables\<close> is classified
  \<open>tool_specific\<close> with tool \<open>listTables\<close>, whatever else it contains.
\<close>

theorem list_tables_rule_first:
  "str_includes (toLowerCase input) ''list tables'' \<or>
   str_includes (toLowerCase input) ''show tables'' \<Longrightarrow>
   classifyQuery_enhanced input =
     \<lparr>qtype = Tool_specific_query, action = None, tool = Some ''listTables''\<rparr>"
  by (auto simp add: classifyQuery_enhanced_def Let_def)

theorem list_tables_rule_first_witness:
  "str_includes (toLowerCase ''Show Tables, schema and device data: count current via SQL'')
     ''show tables'' \<and>
   str_includes (toLowerCase ''Show Tables, schema and device data: count current via SQL'')
     ''schema'' \<and>
   classifyQuery_enhanced ''Show Tables, schema and device data: count current via SQL'' =
     \<lparr>qtype = Tool_specific_query, action = None, tool = Some ''listTables''\<rparr>"
proof -
  have h: "str_includes
      (toLowerCase ''Show Tables, schema and device data: count current via SQL'') ''show tables''"
    by code_simp
  have s: "str_includes
      (toLowerCase ''Show Tables, schema and device data: count current via SQL'') ''schema''"
    by code_simp
  from list_tables_rule_first [OF disjI2, OF h] h s show ?thesis by blast
qed

text \<open>
  C7. In the hybrid classifier a question whose lower-cased text contains one of the metric
  keywords current, temperature, voltage, maximum, average is classified \<open>complex\<close>
  by the first rule, before the device rule is reached and without asking the oracle
  (the call counter is unchanged), also when \<open>device\<close> occurs in it.
\<close>

theorem metric_keywords_complex:
  "str_includes (toLowerCase input) ''current'' \<or>
   str_includes (toLowerCase input) ''temperature'' \<or>
   str_includes (toLowerCase input) ''voltage'' \<or>
   str_includes (toLowerCase input) ''maximum'' \<or>
   str_includes (toLowerCase input) ''average'' \<Longrightarrow>
   classifyQuery_hybrid orc input n =
     (Inr \<lparr>qtype = Complex_query, action = None, tool = None\<rparr>, n)"
  by (auto simp add: classifyQuery_hybrid_def Let_def)

theorem metric_keywords_complex_witness:
  "str_includes (toLowerCase ''Average Temperature of device WM001'') ''temperature'' \<and>
   str_includes (toLowerCase ''Average Temperature of device WM001'') ''device'' \<and>
   classifyQuery_hybrid rate_limited_oracle ''Average Temperature of device WM001'' 0 =
     (Inr \<lparr>qtype = Complex_query, action = None, tool = None\<rparr>, 0)"
proof -
  have h: "str_includes (toLowerCase ''Average Temperature of device WM001'') ''temperature''"
    by code_simp
  have d: "str_includes (toLowerCase ''Average Temperature of device WM001'') ''device''"
    by code_simp
  from metric_keywords_complex [OF disjI2, OF disjI1, OF h, of rate_limited_oracle 0] h d
  show ?thesis by blast
qed

text \<open>
  C8 as stated fails: no keyword rule matches \<open>hello\<close>, the oracle is asked, and when that
  call throws (here the rate limit), \<open>classifyQuery\<close> throws to its caller.
\<close>

theorem classifyQuery_throws_counterexample:
  "classifyQuery_hybrid rate_limited_oracle ''hello'' 0 =
     (Inl (Error ''Too Many Requests'' (Some 429)), Suc 0)"
  by code_simp

text \<open>
  C8, amended. If the oracle call replies, both hybrid classifiers return a classification,
  and a reply that, trimmed and lower-cased, does not start with \<open>simple:\<close> gives
  \<open>complex\<close>. If the oracle call throws, the classifier either has returned \<open>complex\<close>
  from a keyword rule without calling the oracle, or it throws that error.
\<close>

theorem classifyQuery_outcomes:
  "(orc n = Reply r \<longrightarrow>
      (\<exists>c m. classifyQuery_hybrid orc input n = (Inr c, m)) \<and>
      (\<exists>c m. classifyQuery_hybrid_v1 orc input n = (Inr c, m)) \<and>
      (\<not> startsWith (toLowerCase (trim r)) ''simple:'' \<longrightarrow>
         fst (classifyQuery_hybrid orc input n) =
           Inr \<lparr>qtype = Complex_query, action = None, tool = None\<rparr> \<and>
         fst (classifyQuery_hybrid_v1 orc input n) =
           Inr \<lparr>qtype = Complex_query, action = None, tool = None\<rparr>)) \<and>
   (orc n = Raise e \<longrightarrow>
      (classifyQuery_hybrid orc input n =
         (Inr \<lparr>qtype = Complex_query, action = None, tool = None\<rparr>, n) \<or>
       classifyQuery_hybrid orc input n = (Inl e, Suc n)) \<and>
      (classifyQuery_hybrid_v1 orc input n =
         (Inr \<lparr>qtype = Complex_query, action = None, tool = None\<rparr>, n) \<or>
       classifyQuery_hybrid_v1 orc input n = (Inl e, Suc n)))"
  using classifyQuery_hybrid_reply [of orc n r input]
    classifyQuery_hybrid_v1_reply [of orc n r input]
    classifyQuery_hybrid_unparseable [of orc n r input]
    classifyQuery_hybrid_v1_unparseable [of orc n r input]
    classifyQuery_hybrid_cases [of orc input n]
    classifyQuery_hybrid_v1_cases [of orc input n]
    askClassifier_raise [of orc n e]
  by auto

theorem classifyQuery_outcomes_witness:
  "chatty_oracle 0 = Reply ''I am not sure.'' \<and>
   \<not> startsWith (toLowerCase (trim ''I am not sure.'')) ''simple:'' \<and>
   fst (classifyQuery_hybrid chatty_oracle ''hello'' 0) =
     Inr \<lparr>qtype = Complex_query, action = None, tool = None\<rparr> \<and>
   fst (classifyQuery_hybrid_v1 chatty_oracle ''hello'' 0) =
     Inr \<lparr>qtype = Complex_query, action = None, tool = None\<rparr> \<and>
   rate_limited_oracle 0 = Raise (Error ''Too Many Requests'' (Some 429)) \<and>
   classifyQuery_hybrid rate_limited_oracle ''list the devices'' 0 =
     (Inr \<lparr>qtype = Complex_query, action = None, tool = None\<rparr>, 0)"
proof -
  have h: "chatty_oracle 0 = Reply ''I am not sure.''"
    by (simp add: chatty_oracle_def)
  have u: "\<not> startsWith (toLowerCase (trim ''I am not sure.'')) ''simple:''"
    by code_simp
  have g: "rate_limited_oracle 0 = Raise (Error ''Too Many Requests'' (Some 429))"
    by (simp add: rate_limited_oracle_def)
  have k: "classifyQuery_hybrid rate_limited_oracle ''list the devices'' 0 \<noteq>
      (Inl (Error ''Too Many Requests'' (Some 429)), Suc 0)"
    by code_simp
  from classifyQuery_outcomes [of chatty_oracle 0 "''I am not sure.''" "''hello''"] h u
  have a: "fst (classifyQuery_hybrid chatty_oracle ''hello'' 0) =
       Inr \<lparr>qtype = Complex_query, action = None, tool = None\<rparr> \<and>
     fst (classifyQuery_hybrid_v1 chatty_oracle ''hello'' 0) =
       Inr \<lparr>qtype = Complex_query, action = None, tool = None\<rparr>"
    by blast
  from classifyQuery_outcomes [of rate_limited_oracle 0 _ "''list the devices''" "Error ''Too Many Requests'' (Some 429)"] g k
  have b: "classifyQuery_hybrid rate_limited_oracle ''list the devices'' 0 =
     (Inr \<lparr>qtype = Complex_query, action = None, tool = None\<rparr>, 0)"
    by blast
  from a b h u g show ?thesis by blast
qed

section \<open>Properties of the SQL query tools\<close>

lemma SmartWeldSQLTool_advanced_rejects_non_select:
  "\<not> startsWith (toLowerCase (trim input)) ''select'' \<Longrightarrow>
   SmartWeldSQLTool_call_advanced query input executed =
     (''Error: Only SELECT queries are allowed for security reasons.'', executed)"
  by (simp add: SmartWeldSQLTool_call_advanced_def)

lemma SmartWeldSQLTool_advanced_rejects_drop_table:
  "SmartWeldSQLTool_call_advanced accepting_store ''DROP TABLE x'' [] =
     (''Error: Only SELECT queries are allowed for security reasons.'', [])"
  by code_simp

text \<open>
  C5. The SQL tool of \<open>services/sql-toolkit.ts\<close> has no SELECT check: \<open>DROP TABLE x\<close>
  is handed to the store as it is, and the store's answer is returned.
\<close>

theorem SmartWeldSQLTool_executes_drop_table:
  "SmartWeldSQLTool_call accepting_store ''DROP TABLE x'' [] = (''[]'', [''DROP TABLE x''])"
  by (simp add: SmartWeldSQLTool_call_def accepting_store_def)

section \<open>Properties of the analysis\<close>

lemma try_analysis_exceeded:
  "try_analysis env now data w = (Inr r, w') \<Longrightarrow>
   isCurrentExceeded r = js_gt (current data) (CURRENT_THRESHOLD data)"
  by (auto simp add: try_analysis_def Let_def
      split: oracle_outcome.splits option.splits sum.splits prod.splits)

lemma fallback_exceeded:
  "isCurrentExceeded (fallback_analysis now data) = js_gt (current data) (CURRENT_THRESHOLD data)"
  by (simp add: fallback_analysis_def Let_def)

lemma try_analysis_oracle_fails:
  "generateContent env (oracle_calls w) = Raise e \<Longrightarrow>
   try_analysis env now data w = (Inl e, w\<lparr>oracle_calls := Suc (oracle_calls w)\<rparr>)"
  by (simp add: try_analysis_def Let_def)

lemma analyzeHighCurrent_oracle_fails:
  "generateContent env (oracle_calls w) = Raise e \<Longrightarrow>
   analyzeHighCurrent env now data w =
     (fallback_analysis now data, w\<lparr>oracle_calls := Suc (oracle_calls w)\<rparr>)"
  by (simp add: analyzeHighCurrent_def analyzeHighCurrent_locals_def try_analysis_oracle_fails)

lemma try_analysis_calls:
  "oracle_calls (snd (try_analysis env now data w)) = Suc (oracle_calls w)"
  by (auto simp add: try_analysis_def Let_def DeviceTelemetry_create_def
      split: oracle_outcome.splits option.splits sum.splits prod.splits)

text \<open>Every call of \<open>analyzeHighCurrent\<close> calls the oracle exactly once.\<close>

lemma analyzeHighCurrent_calls:
  "oracle_calls (snd (analyzeHighCurrent env now data w)) = Suc (oracle_calls w)"
  using try_analysis_calls [of env now data w]
  by (auto simp add: analyzeHighCurrent_def analyzeHighCurrent_locals_def
      split: prod.splits sum.splits)

lemma fallback_severity:
  assumes "0 < t" and "CURRENT_THRESHOLD data = Fin t"
  shows "severity (fallback_analysis now data) =
     (if js_gt (current data) (Fin (1.5 * t)) then JStr ''CRITICAL''
      else if js_gt (current data) (Fin t) then JStr ''WARNING'' else JStr ''NORMAL'')"
  using assms
  by (cases "current data") (auto simp add: fallback_analysis_def Let_def field_simps)

lemma fallback_severity_levels:
  "severity (fallback_analysis now data) = JStr ''CRITICAL'' \<or>
   severity (fallback_analysis now data) = JStr ''WARNING'' \<or>
   severity (fallback_analysis now data) = JStr ''NORMAL''"
  by (simp add: fallback_analysis_def Let_def)

lemma analyzeHighCurrent_failure_levels:
  "fst (try_analysis env now data w) = Inl e \<Longrightarrow>
   severity (fst (analyzeHighCurrent env now data w)) = JStr ''CRITICAL'' \<or>
   severity (fst (analyzeHighCurrent env now data w)) = JStr ''WARNING'' \<or>
   severity (fst (analyzeHighCurrent env now data w)) = JStr ''NORMAL''"
  using fallback_severity_levels [of now data]
  by (auto simp add: analyzeHighCurrent_def analyzeHighCurrent_locals_def split: prod.splits sum.splits)

text \<open>
  C1. The breaker does not survive a call. The first call, at time 0, meets the rate limit
  and leaves its local variables at blocked until 300000; the second call, at time 1000,
  starts from fresh variables, calls the oracle again (two calls in all) and returns the
  threshold fallback, not the short-circuit result.
\<close>

theorem circuit_breaker_forgotten:
  "analyzeHighCurrent_locals rate_limited_env 0 (reading 120) empty_world =
     (fallback_analysis 0 (reading 120), (True, 300000), empty_world\<lparr>oracle_calls := 1\<rparr>) \<and>
   oracle_calls (snd (analyzeHighCurrent rate_limited_env 1000 (reading 120)
      (snd (analyzeHighCurrent rate_limited_env 0 (reading 120) empty_world)))) = 2 \<and>
   severity (fst (analyzeHighCurrent rate_limited_env 1000 (reading 120)
      (snd (analyzeHighCurrent rate_limited_env 0 (reading 120) empty_world)))) =
     JStr ''CRITICAL''"
  by (simp add: analyzeHighCurrent_def analyzeHighCurrent_locals_def try_analysis_def
      rate_limited_env_def rate_limited_oracle_def empty_world_def fallback_analysis_def
      reading_def)

text \<open>
  C2. A severity that the oracle invents is returned as it is: the answer
  \<open>{"severity": "HIGH", ...}\<close> gives the severity \<open>HIGH\<close>.
\<close>

theorem oracle_severity_not_validated:
  "severity (fst (analyzeHighCurrent high_env 1000 (reading 120) empty_world)) = JStr ''HIGH''"
  by code_simp

text \<open>
  C3. When the oracle call fails, the severity is decided by the exceedance ratio alone:
  for a threshold \<open>t > 0\<close>, a current of \<open>2t\<close> is CRITICAL, of \<open>1.2t\<close> WARNING, of at
  most \<open>t\<close> NORMAL; exactly \<open>1.5t\<close> is WARNING, anything above \<open>1.5t\<close> is CRITICAL, and
  anything above \<open>t\<close> up to \<open>1.5t\<close> is WARNING.
\<close>

theorem fallback_severity_by_ratio:
  assumes "generateContent env (oracle_calls w) = Raise e"
    and "0 < t" and "CURRENT_THRESHOLD data = Fin t"
  shows
    "(current data = Fin (2 * t) \<longrightarrow>
        severity (fst (analyzeHighCurrent env now data w)) = JStr ''CRITICAL'') \<and>
     (current data = Fin (1.2 * t) \<longrightarrow>
        severity (fst (analyzeHighCurrent env now data w)) = JStr ''WARNING'') \<and>
     (current data = Fin (1.5 * t) \<longrightarrow>
        severity (fst (analyzeHighCurrent env now data w)) = JStr ''WARNING'') \<and>
     (\<forall>c. current data = Fin c \<and> c \<le> t \<longrightarrow>
        severity (fst (analyzeHighCurrent env now data w)) = JStr ''NORMAL'') \<and>
     (\<forall>c. current data = Fin c \<and> 1.5 * t < c \<longrightarrow>
        severity (fst (analyzeHighCurrent env now data w)) = JStr ''CRITICAL'') \<and>
     (\<forall>c. current data = Fin c \<and> t < c \<and> c \<le> 1.5 * t \<longrightarrow>
        severity (fst (analyzeHighCurrent env now data w)) = JStr ''WARNING'')"
  using assms(2)
  by (auto simp add: analyzeHighCurrent_oracle_fails [OF assms(1)]
      fallback_severity [OF assms(2) assms(3)])

theorem fallback_severity_by_ratio_witness:
  "generateContent rate_limited_env (oracle_calls empty_world) =
     Raise (Error ''Too Many Requests'' (Some 429)) \<and>
   (0::real) < 50 \<and>
   severity (fst (analyzeHighCurrent rate_limited_env 0 (reading 100) empty_world)) =
     JStr ''CRITICAL'' \<and>
   severity (fst (analyzeHighCurrent rate_limited_env 0 (reading 60) empty_world)) =
     JStr ''WARNING'' \<and>
   severity (fst (analyzeHighCurrent rate_limited_env 0 (reading 75) empty_world)) =
     JStr ''WARNING'' \<and>
   severity (fst (analyzeHighCurrent rate_limited_env 0 (reading 76) empty_world)) =
     JStr ''CRITICAL'' \<and>
   severity (fst (analyzeHighCurrent rate_limited_env 0 (reading 50) empty_world)) =
     JStr ''NORMAL''"
proof -
  have h: "generateContent rate_limited_env (oracle_calls empty_world) =
      Raise (Error ''Too Many Requests'' (Some 429))"
    by (simp add: rate_limited_env_def rate_limited_oracle_def)
  have p: "(0::real) < 50" by simp
  have t: "CURRENT_THRESHOLD (reading c) = Fin 50" for c
    by (simp add: reading_def)
  have c: "current (reading c) = Fin c" for c
    by (simp add: reading_def)
  have "severity (fst (analyzeHighCurrent rate_limited_env 0 (reading 100) empty_world)) =
      JStr ''CRITICAL''"
    using fallback_severity_by_ratio [OF h p t, of 100 0] c [of 100] by simp
  moreover have "severity (fst (analyzeHighCurrent rate_limited_env 0 (reading 60) empty_world)) =
      JStr ''WARNING''"
    using fallback_severity_by_ratio [OF h p t, of 60 0] c [of 60] by simp
  moreover have "severity (fst (analyzeHighCurrent rate_limited_env 0 (reading 75) empty_world)) =
      JStr ''WARNING''"
    using fallback_severity_by_ratio [OF h p t, of 75 0] c [of 75] by simp
  moreover have "severity (fst (analyzeHighCurrent rate_limited_env 0 (reading 76) empty_world)) =
      JStr ''CRITICAL''"
    using fallback_severity_by_ratio [OF h p t, of 76 0] c [of 76] by simp
  moreover have "severity (fst (analyzeHighCurrent rate_limited_env 0 (reading 50) empty_world)) =
      JStr ''NORMAL''"
    using fallback_severity_by_ratio [OF h p t, of 50 0] c [of 50] by simp
  ultimately show ?thesis using h p by blast
qed

text \<open>
  C10. The \<open>isCurrentExceeded\<close> field of the result is the comparison of the current with
  the threshold, computed locally in every branch; it is therefore the same for any two
  runs on the same telemetry, whatever the oracle answers, the store does or the time is.
\<close>

theorem isCurrentExceeded_local:
  "isCurrentExceeded (fst (analyzeHighCurrent env now data w)) =
     js_gt (current data) (CURRENT_THRESHOLD data) \<and>
   isCurrentExceeded (fst (analyzeHighCurrent env now data w)) =
     isCurrentExceeded (fst (analyzeHighCurrent env' now' data w'))"
  by (auto simp add: analyzeHighCurrent_def analyzeHighCurrent_locals_def fallback_exceeded
      try_analysis_exceeded split: prod.splits sum.splits)

section \<open>Properties of the response cleaning\<close>

lemma startsWith_append_prefix: "startsWith s (p @ q) \<Longrightarrow> startsWith s p"
  by (induction s p rule: startsWith.induct) auto

lemma startsWith_extend: "startsWith a p \<Longrightarrow> startsWith (a @ b) p"
  by (induction a p rule: startsWith.induct) auto

lemma startsWith_across:
  "startsWith (u @ x # v) p \<Longrightarrow> x \<notin> set p \<Longrightarrow> startsWith u p"
proof (induction u arbitrary: p)
  case Nil
  then show ?case by (cases p) auto
next
  case (Cons c cs)
  then show ?case by (cases p) auto
qed

lemma str_includes_longer: "str_includes s (p @ q) \<Longrightarrow> p \<noteq> [] \<Longrightarrow> str_includes s p"
  by (induction s) (auto dest: startsWith_append_prefix)

lemma str_includes_dropWhile:
  "str_includes (dropWhile P s) p \<Longrightarrow> p \<noteq> [] \<Longrightarrow> str_includes s p"
  by (induction s) (auto split: if_splits)

lemma str_includes_prefix: "str_includes a p \<Longrightarrow> str_includes (a @ b) p"
proof (induction a)
  case Nil
  then show ?case by (cases b) auto
next
  case (Cons c cs)
  then show ?case using startsWith_extend [of "c # cs" p b] by auto
qed

lemma strip_marker_absent: "\<not> str_includes s m \<Longrightarrow> strip_marker m s = s"
  by (induction s) auto

lemma strip_fence_at_end:
  "\<not> str_includes u ''```'' \<Longrightarrow> strip_marker ''```'' (u @ CHR 0x0A # ''```'') = u @ [CHR 0x0A]"
proof (induction u)
  case Nil
  show ?case by (simp add: isWhiteSpace_def)
next
  case (Cons c cs)
  have "\<not> startsWith ((c # cs) @ CHR 0x0A # ''```'') ''```''"
    using startsWith_across [of "c # cs" "CHR 0x0A" "''```''" "''```''"] Cons.prems by auto
  with Cons show ?case by auto
qed

lemma no_json_fence_before_end:
  "\<not> str_includes u ''```'' \<Longrightarrow> \<not> str_includes (u @ CHR 0x0A # ''```'') ''```json''"
proof (induction u)
  case Nil
  show ?case by simp
next
  case (Cons c cs)
  have "\<not> startsWith (c # cs) ''```json''"
    using Cons.prems startsWith_append_prefix [of "c # cs" "''```''" "''json''"] by auto
  then have "\<not> startsWith ((c # cs) @ CHR 0x0A # ''```'') ''```json''"
    using startsWith_across [of "c # cs" "CHR 0x0A" "''```''" "''```json''"] by auto
  with Cons show ?case by auto
qed

lemma trim_fenced: "trim (fenced t) = fenced t"
  by (simp add: trim_def fenced_def isWhiteSpace_def)

lemma strip_json_fenced:
  "strip_marker ''```json'' (fenced t) =
     strip_marker ''```json'' (dropWhile isWhiteSpace (t @ CHR 0x0A # ''```''))"
  by (simp add: fenced_def isWhiteSpace_def)

lemma clean_fenced:
  assumes "\<not> str_includes t ''```''"
  shows "cleanResponse (trim (fenced t)) = trim t"
proof (cases "\<forall>c \<in> set t. isWhiteSpace c")
  case True
  then have r: "dropWhile isWhiteSpace (t @ CHR 0x0A # ''```'') = ''```''"
    by (simp add: isWhiteSpace_def)
  have dw: "dropWhile isWhiteSpace t = []" using True by simp
  have "trim t = []" unfolding trim_def dw by simp
  moreover have "cleanResponse (trim (fenced t)) = []"
  proof -
    have "strip_marker ''```'' (strip_marker ''```json'' (fenced t)) = []"
      by (simp add: strip_json_fenced r)
    then show ?thesis by (simp add: cleanResponse_def trim_fenced) (simp add: trim_def)
  qed
  ultimately show ?thesis by simp
next
  case False
  define u where "u = dropWhile isWhiteSpace t"
  from False obtain x where x: "x \<in> set t" "\<not> isWhiteSpace x" by blast
  have r: "dropWhile isWhiteSpace (t @ CHR 0x0A # ''```'') = u @ CHR 0x0A # ''```''"
    unfolding u_def using x by (rule dropWhile_append1)
  have nu: "\<not> str_includes u ''```''"
    using assms str_includes_dropWhile [of isWhiteSpace t "''```''"] by (auto simp add: u_def)
  have u0: "u \<noteq> []" using False by (simp add: u_def)
  have hd: "\<not> isWhiteSpace (hd u)" using u0 unfolding u_def by (rule hd_dropWhile)
  have s1: "strip_marker ''```json'' (fenced t) = u @ CHR 0x0A # ''```''"
    using no_json_fence_before_end [OF nu] by (simp add: strip_json_fenced r strip_marker_absent)
  have s2: "strip_marker ''```'' (u @ CHR 0x0A # ''```'') = u @ [CHR 0x0A]"
    by (rule strip_fence_at_end [OF nu])
  have d: "dropWhile isWhiteSpace (u @ [CHR 0x0A]) = u @ [CHR 0x0A]"
    using u0 hd by (cases u) auto
  have "trim (u @ [CHR 0x0A]) = rev (dropWhile isWhiteSpace (rev u))"
    by (simp add: trim_def d isWhiteSpace_def)
  moreover have "cleanResponse (trim (fenced t)) = trim (u @ [CHR 0x0A])"
    by (simp add: cleanResponse_def trim_fenced s1 s2)
  moreover have "trim t = rev (dropWhile isWhiteSpace (rev u))"
    by (simp add: trim_def u_def)
  ultimately show ?thesis by simp
qed

lemma trim_is_prefix:
  "dropWhile isWhiteSpace t =
     trim t @ rev (takeWhile isWhiteSpace (rev (dropWhile isWhiteSpace t)))"
proof -
  define u where "u = dropWhile isWhiteSpace t"
  have "u = rev (takeWhile isWhiteSpace (rev u) @ dropWhile isWhiteSpace (rev u))"
    by (simp only: takeWhile_dropWhile_id rev_rev_ident)
  also have "\<dots> = rev (dropWhile isWhiteSpace (rev u)) @ rev (takeWhile isWhiteSpace (rev u))"
    by (rule rev_append)
  finally show ?thesis unfolding trim_def u_def .
qed

lemma str_includes_trim:
  assumes "str_includes (trim t) p" and "p \<noteq> []"
  shows "str_includes t p"
proof -
  from assms(1) have "str_includes (dropWhile isWhiteSpace t) p"
    using str_includes_prefix [of "trim t" p] trim_is_prefix [of t] by metis
  then show ?thesis using assms(2) by (rule str_includes_dropWhile)
qed

lemma trim_trim: "trim (trim t) = trim t"
proof (cases "trim t = []")
  case True
  have "trim [] = []" by (simp add: trim_def)
  with True show ?thesis by simp
next
  case False
  define u where "u = dropWhile isWhiteSpace t"
  have p: "u = trim t @ rev (takeWhile isWhiteSpace (rev u))"
    unfolding u_def by (rule trim_is_prefix)
  have "u \<noteq> []" using False p by auto
  then have "\<not> isWhiteSpace (hd u)" unfolding u_def by (rule hd_dropWhile)
  moreover have "hd u = hd (trim t)" using False p by (metis hd_append2)
  ultimately have "dropWhile isWhiteSpace (trim t) = trim t"
    using False by (cases "trim t") auto
  moreover have "rev (trim t) = dropWhile isWhiteSpace (rev u)"
    by (simp add: trim_def u_def)
  ultimately have "trim (trim t) = rev (dropWhile isWhiteSpace (dropWhile isWhiteSpace (rev u)))"
    by (simp add: trim_def [of "trim t"])
  then show ?thesis by (simp add: trim_def u_def)
qed

lemma clean_unfenced:
  assumes "\<not> str_includes t ''```''"
  shows "cleanResponse (trim t) = trim t"
proof -
  have a: "\<not> str_includes (trim t) ''```''"
    using assms str_includes_trim [of t "''```''"] by auto
  then have b: "\<not> str_includes (trim t) ''```json''"
    using str_includes_longer [of "trim t" "''```''" "''json''"] by auto
  show ?thesis by (simp add: cleanResponse_def strip_marker_absent [OF b] strip_marker_absent [OF a] trim_trim)
qed

lemma strip_json_marker_absent: "\<not> str_includes s ''```json'' \<Longrightarrow> strip_json_marker s = s"
  by (induction s) auto

lemma trim_append_space:
  assumes "isWhiteSpace c"
  shows "trim (t @ [c]) = trim t"
proof (cases "\<forall>x \<in> set t. isWhiteSpace x")
  case True
  then have a: "dropWhile isWhiteSpace t = []" by simp
  from True assms have b: "dropWhile isWhiteSpace (t @ [c]) = []" by simp
  show ?thesis unfolding trim_def a b by simp
next
  case False
  then obtain x where "x \<in> set t" "\<not> isWhiteSpace x" by blast
  then have "dropWhile isWhiteSpace (t @ [c]) = dropWhile isWhiteSpace t @ [c]"
    by (rule dropWhile_append1)
  then show ?thesis using assms by (simp add: trim_def)
qed

lemma startsWith_includes: "startsWith s p \<Longrightarrow> str_includes s p"
  by (cases s) (auto elim: startsWith.elims)

lemma str_includes_suffix: "str_includes b p \<Longrightarrow> p \<noteq> [] \<Longrightarrow> str_includes (a @ b) p"
  by (induction a) auto

lemma startsWith_prefix_eq: "startsWith s p \<longleftrightarrow> (\<exists>r. s = p @ r)"
  by (induction s p rule: startsWith.induct) auto

lemma endsWith_includes:
  assumes "endsWith s p" and "p \<noteq> []"
  shows "str_includes s p"
proof -
  from assms(1) obtain r where "rev s = rev p @ r"
    unfolding endsWith_def startsWith_prefix_eq by blast
  then have "s = rev r @ p" by (metis rev_append rev_rev_ident)
  moreover have "str_includes p p" using startsWith_prefix_eq [of p p] startsWith_includes by auto
  ultimately show ?thesis using str_includes_suffix [of p p "rev r"] assms(2) by simp
qed

lemma clean_content_fenced:
  assumes "\<not> str_includes t ''```''"
  shows "cleanContent (fenced t) = trim t"
proof -
  have "strip_json_marker (fenced t) = strip_json_marker (t @ CHR 0x0A # ''```'')"
    by (simp add: fenced_def)
  also have "\<dots> = t @ CHR 0x0A # ''```''"
    using no_json_fence_before_end [OF assms] by (rule strip_json_marker_absent)
  finally have s1: "strip_json_marker (fenced t) = t @ CHR 0x0A # ''```''" .
  have s2: "strip_final_fence (t @ CHR 0x0A # ''```'') = t @ [CHR 0x0A]"
    by (simp add: strip_final_fence_def endsWith_def)
  have s3: "trim (t @ [CHR 0x0A]) = trim t"
    by (rule trim_append_space) (simp add: isWhiteSpace_def)
  show ?thesis by (simp only: cleanContent_def s1 s2 s3)
qed

lemma clean_content_unfenced:
  assumes "\<not> str_includes t ''```''"
  shows "cleanContent t = trim t"
proof -
  have a: "\<not> str_includes t ''```json''"
    using assms str_includes_longer [of t "''```''" "''json''"] by auto
  have b: "\<not> endsWith t ''```''" using assms endsWith_includes [of t "''```''"] by auto
  have "str_includes t (''```'' @ [CHR 0x0A]) \<Longrightarrow> str_includes t ''```''"
    using str_includes_longer [of t "''```''" "[CHR 0x0A]"] by simp
  then have c: "\<not> endsWith t (''```'' @ [CHR 0x0A])"
    using assms endsWith_includes [of t "''```'' @ [CHR 0x0A]"] by auto
  show ?thesis
    using b c by (simp add: cleanContent_def strip_json_marker_absent [OF a] strip_final_fence_def)
qed

text \<open>
  C9 as stated fails: a fence marker inside the JSON text is removed by the cleaning as
  well, so the fenced text \<open>{"a":"```json"}\<close> parses, after either cleaning, to an
  object whose member is the empty string, while the text itself parses to the member
  \<open>```json\<close>.
\<close>

theorem fence_round_trip_counterexample:
  \<open>JSON_parse (cleanResponse (trim (fenced ''{"a":"```json"}''))) =
     Some (JObj [(''a'', JStr [])]) \<and>
   JSON_parse (cleanContent (fenced ''{"a":"```json"}'')) = Some (JObj [(''a'', JStr [])]) \<and>
   JSON_parse ''{"a":"```json"}'' = Some (JObj [(''a'', JStr ''```json'')])\<close>
  by code_simp

text \<open>
  C9, amended. For a text \<open>t\<close> without three back-ticks in a row, cleaning the fenced
  wrapping of \<open>t\<close> gives \<open>trim t\<close>, which is also what cleaning \<open>t\<close> itself gives, with
  either cleaning; so the fenced and the unfenced response parse to the same value, and
  when \<open>t\<close> has no white space at its ends (as an object text \<open>{...}\<close>) that value is
  the parse of \<open>t\<close>.
\<close>

theorem fence_round_trip:
  assumes "\<not> str_includes t ''```''"
  shows "cleanResponse (trim (fenced t)) = trim t \<and>
         cleanResponse (trim t) = trim t \<and>
         cleanContent (fenced t) = trim t \<and>
         cleanContent t = trim t \<and>
         JSON_parse (cleanResponse (trim (fenced t))) = JSON_parse (cleanResponse (trim t)) \<and>
         JSON_parse (cleanContent (fenced t)) = JSON_parse (cleanContent t) \<and>
         (trim t = t \<longrightarrow>
            JSON_parse (cleanResponse (trim (fenced t))) = JSON_parse t \<and>
            JSON_parse (cleanContent (fenced t)) = JSON_parse t)"
  using clean_fenced [OF assms] clean_unfenced [OF assms]
    clean_content_fenced [OF assms] clean_content_unfenced [OF assms]
  by simp

theorem fence_round_trip_witness:
  \<open>\<not> str_includes ''{"a":"b"}'' ''```'' \<and>
   trim ''{"a":"b"}'' = ''{"a":"b"}'' \<and>
   cleanResponse (trim (fenced ''{"a":"b"}'')) = ''{"a":"b"}'' \<and>
   cleanContent (fenced ''{"a":"b"}'') = ''{"a":"b"}'' \<and>
   JSON_parse (cleanResponse (trim (fenced ''{"a":"b"}''))) = JSON_parse ''{"a":"b"}'' \<and>
   JSON_parse (cleanContent (fenced ''{"a":"b"}'')) = JSON_parse ''{"a":"b"}'' \<and>
   JSON_parse ''{"a":"b"}'' = Some (JObj [(''a'', JStr ''b'')])\<close>
proof -
  have h: \<open>\<not> str_includes ''{"a":"b"}'' ''```''\<close> by simp
  have t: \<open>trim ''{"a":"b"}'' = ''{"a":"b"}''\<close> by (simp add: trim_def isWhiteSpace_def)
  have p: \<open>JSON_parse ''{"a":"b"}'' = Some (JObj [(''a'', JStr ''b'')])\<close> by code_simp
  from fence_round_trip [OF h] h t p show ?thesis by simp
qed

section \<open>Properties of the ingestion\<close>

lemma try_analysis_rows:
  "try_analysis env now data w = (x, w') \<Longrightarrow> \<exists>extra. rows w' = rows w @ extra"
  by (auto simp add: try_analysis_def Let_def DeviceTelemetry_create_def
      split: oracle_outcome.splits option.splits sum.splits prod.splits)

lemma analyzeHighCurrent_rows:
  "analyzeHighCurrent env now data w = (a, w') \<Longrightarrow> \<exists>extra. rows w' = rows w @ extra"
  by (auto simp add: analyzeHighCurrent_def analyzeHighCurrent_locals_def
      split: prod.splits sum.splits dest: try_analysis_rows)

lemma try_analysis_timestamp:
  "try_analysis env now data w = (Inr r, w') \<Longrightarrow> analysisTimestamp r = now"
  by (auto simp add: try_analysis_def Let_def
      split: oracle_outcome.splits option.splits sum.splits prod.splits)

lemma analyzeHighCurrent_timestamp:
  "analyzeHighCurrent env now data w = (a, w') \<Longrightarrow> analysisTimestamp a = now"
  by (auto simp add: analyzeHighCurrent_def analyzeHighCurrent_locals_def fallback_analysis_def Let_def
      split: prod.splits sum.splits dest: try_analysis_timestamp)

lemma instance_update_length:
  "instance_update env i a w = (x, w') \<Longrightarrow> length (rows w') = length (rows w)"
  by (auto simp add: instance_update_def split: option.splits)

lemma instance_update_readings:
  "instance_update env i a w = (x, w') \<Longrightarrow> j < length (rows w) \<Longrightarrow>
   readings (rows w' ! j) = readings (rows w ! j)"
  by (auto simp add: instance_update_def readings_def nth_list_update split: option.splits)

lemma instance_update_other:
  "instance_update env i a w = (x, w') \<Longrightarrow> j \<noteq> i \<Longrightarrow> rows w' ! j = rows w ! j"
  by (auto simp add: instance_update_def split: option.splits)

lemma instance_update_calls:
  "instance_update env i a w = (x, w') \<Longrightarrow> oracle_calls w' = oracle_calls w"
  by (auto simp add: instance_update_def split: option.splits)

lemma instance_update_done:
  "instance_update env i a w = (Inr u, w') \<Longrightarrow> i < length (rows w) \<Longrightarrow>
   stored_severity (rows w' ! i) = Some (severity a) \<and>
   stored_possibleCause (rows w' ! i) = Some (possibleCause a) \<and>
   stored_recommendation (rows w' ! i) = Some (recommendation a) \<and>
   stored_analysisTimestamp (rows w' ! i) = Some (analysisTimestamp a)"
  by (auto simp add: instance_update_def split: option.splits)

lemma analyzeHighCurrent_calls_pair:
  "analyzeHighCurrent env now data w = (a, w') \<Longrightarrow> oracle_calls w' = Suc (oracle_calls w)"
  using analyzeHighCurrent_calls [of env now data w] by simp

lemma loop_step:
  assumes "analyzeInsertedRows env now ((i, t) # ins) w = (x, w')"
  obtains
    (skip) "\<not> js_gt (current t) APP_CURRENT_THRESHOLD"
      and "analyzeInsertedRows env now ins w = (x, w')"
  | (stop) a w1 e where "js_gt (current t) APP_CURRENT_THRESHOLD"
      and "analyzeHighCurrent env now
             \<lparr>deviceId = deviceId t, timestamp = timestamp t, temperature = temperature t,
              voltage = voltage t, current = current t, gas = gas t,
              CURRENT_THRESHOLD = APP_CURRENT_THRESHOLD\<rparr> w = (a, w1)"
      and "instance_update env i a w1 = (Inl e, w')" and "x = Inl e"
  | (go) a w1 w2 where "js_gt (current t) APP_CURRENT_THRESHOLD"
      and "analyzeHighCurrent env now
             \<lparr>deviceId = deviceId t, timestamp = timestamp t, temperature = temperature t,
              voltage = voltage t, current = current t, gas = gas t,
              CURRENT_THRESHOLD = APP_CURRENT_THRESHOLD\<rparr> w = (a, w1)"
      and "instance_update env i a w1 = (Inr (), w2)"
      and "analyzeInsertedRows env now ins w2 = (x, w')"
  using assms by (auto split: if_splits prod.splits sum.splits)

lemma loop_readings:
  "analyzeInsertedRows env now ins w = (x, w') \<Longrightarrow>
   length (rows w) \<le> length (rows w') \<and>
   (\<forall>j < length (rows w). readings (rows w' ! j) = readings (rows w ! j))"
proof (induction ins arbitrary: w)
  case Nil
  then show ?case by simp
next
  case (Cons p ins)
  obtain i t where p: "p = (i, t)" by (cases p)
  from Cons.prems [unfolded p] show ?case
  proof (cases rule: loop_step)
    case skip
    then show ?thesis using Cons.IH by blast
  next
    case (stop a w1 e)
    from analyzeHighCurrent_rows [OF stop(2)] obtain extra where "rows w1 = rows w @ extra" by blast
    then show ?thesis
      using instance_update_length [OF stop(3)] instance_update_readings [OF stop(3)]
      by (auto simp add: nth_append)
  next
    case (go a w1 w2)
    from analyzeHighCurrent_rows [OF go(2)] obtain extra where "rows w1 = rows w @ extra" by blast
    then have "length (rows w) \<le> length (rows w2) \<and>
      (\<forall>j < length (rows w). readings (rows w2 ! j) = readings (rows w ! j))"
      using instance_update_length [OF go(3)] instance_update_readings [OF go(3)]
      by (auto simp add: nth_append)
    with Cons.IH [OF go(4)] show ?thesis by auto
  qed
qed

lemma loop_untouched:
  "analyzeInsertedRows env now ins w = (x, w') \<Longrightarrow> j < length (rows w) \<Longrightarrow>
   (\<forall>r. (j, r) \<in> set ins \<longrightarrow> \<not> js_gt (current r) APP_CURRENT_THRESHOLD) \<Longrightarrow>
   rows w' ! j = rows w ! j"
proof (induction ins arbitrary: w)
  case Nil
  then show ?case by simp
next
  case (Cons p ins)
  obtain i t where p: "p = (i, t)" by (cases p)
  have rest: "\<forall>r. (j, r) \<in> set ins \<longrightarrow> \<not> js_gt (current r) APP_CURRENT_THRESHOLD"
    using Cons.prems(3) by simp
  from Cons.prems(1) [unfolded p] show ?case
  proof (cases rule: loop_step)
    case skip
    then show ?thesis using Cons.IH [OF _ Cons.prems(2) rest] by blast
  next
    case (stop a w1 e)
    then have "j \<noteq> i" using Cons.prems(3) p by auto
    from analyzeHighCurrent_rows [OF stop(2)] obtain extra where "rows w1 = rows w @ extra" by blast
    then show ?thesis
      using instance_update_other [OF stop(3) \<open>j \<noteq> i\<close>] Cons.prems(2)
      by (simp add: nth_append)
  next
    case (go a w1 w2)
    then have "j \<noteq> i" using Cons.prems(3) p by auto
    from analyzeHighCurrent_rows [OF go(2)] obtain extra where e: "rows w1 = rows w @ extra" by blast
    then have same: "rows w2 ! j = rows w ! j"
      using instance_update_other [OF go(3) \<open>j \<noteq> i\<close>] Cons.prems(2)
      by (simp add: nth_append)
    have "j < length (rows w2)"
      using e instance_update_length [OF go(3)] Cons.prems(2) by simp
    from Cons.IH [OF go(4) this rest] same show ?thesis by simp
  qed
qed

lemma loop_calls:
  "analyzeInsertedRows env now ins w = (x, w') \<Longrightarrow>
   oracle_calls w' \<le> oracle_calls w +
     length (filter (\<lambda>r. js_gt (current r) APP_CURRENT_THRESHOLD) (map snd ins)) \<and>
   ((\<exists>u. x = Inr u) \<longrightarrow> oracle_calls w' = oracle_calls w +
     length (filter (\<lambda>r. js_gt (current r) APP_CURRENT_THRESHOLD) (map snd ins)))"
proof (induction ins arbitrary: w)
  case Nil
  then show ?case by simp
next
  case (Cons p ins)
  obtain i t where p: "p = (i, t)" by (cases p)
  from Cons.prems [unfolded p] show ?case
  proof (cases rule: loop_step)
    case skip
    then show ?thesis using Cons.IH [OF skip(2)] p by simp
  next
    case (stop a w1 e)
    have "oracle_calls w1 = Suc (oracle_calls w)"
      by (rule analyzeHighCurrent_calls_pair [OF stop(2)])
    then show ?thesis using instance_update_calls [OF stop(3)] stop(1,4) p by simp
  next
    case (go a w1 w2)
    have "oracle_calls w1 = Suc (oracle_calls w)"
      by (rule analyzeHighCurrent_calls_pair [OF go(2)])
    then have "oracle_calls w2 = Suc (oracle_calls w)"
      using instance_update_calls [OF go(3)] by simp
    with Cons.IH [OF go(4)] go(1) p show ?thesis by simp
  qed
qed

lemma loop_analysed:
  "analyzeInsertedRows env now ins w = (Inr u, w') \<Longrightarrow> distinct (map fst ins) \<Longrightarrow>
   (\<forall>p \<in> set ins. fst p < length (rows w)) \<Longrightarrow>
   (i, r) \<in> set ins \<Longrightarrow> js_gt (current r) APP_CURRENT_THRESHOLD \<Longrightarrow>
   \<exists>a wa wb.
     analyzeHighCurrent env now
       \<lparr>deviceId = deviceId r, timestamp = timestamp r, temperature = temperature r,
        voltage = voltage r, current = current r, gas = gas r,
        CURRENT_THRESHOLD = APP_CURRENT_THRESHOLD\<rparr> wa = (a, wb) \<and>
     stored_severity (rows w' ! i) = Some (severity a) \<and>
     stored_possibleCause (rows w' ! i) = Some (possibleCause a) \<and>
     stored_recommendation (rows w' ! i) = Some (recommendation a) \<and>
     stored_analysisTimestamp (rows w' ! i) = Some now"
proof (induction ins arbitrary: w)
  case Nil
  then show ?case by simp
next
  case (Cons p ins)
  obtain k t where p: "p = (k, t)" by (cases p)
  have d: "distinct (map fst ins)" and k: "k \<notin> fst ` set ins" and kl: "k < length (rows w)"
    and b: "\<forall>p \<in> set ins. fst p < length (rows w)"
    using Cons.prems(2,3) p by auto
  from Cons.prems(1) [unfolded p] show ?case
  proof (cases rule: loop_step)
    case skip
    then have "(i, r) \<in> set ins" using Cons.prems(4,5) p by auto
    from Cons.IH [OF skip(2) d b this Cons.prems(5)] show ?thesis .
  next
    case (stop a w1 e)
    then show ?thesis by simp
  next
    case (go a w1 w2)
    from analyzeHighCurrent_rows [OF go(2)] obtain extra where e: "rows w1 = rows w @ extra" by blast
    have l2: "length (rows w2) = length (rows w1)" by (rule instance_update_length [OF go(3)])
    have b2: "\<forall>p \<in> set ins. fst p < length (rows w2)" using b e l2 by auto
    show ?thesis
    proof (cases "(i, r) \<in> set ins")
      case True
      from Cons.IH [OF go(4) d b2 True Cons.prems(5)] show ?thesis .
    next
      case False
      then have ik: "i = k" and rt: "r = t" using Cons.prems(4) p by auto
      have k1: "k < length (rows w1)" using kl e by simp
      have upd: "stored_severity (rows w2 ! k) = Some (severity a) \<and>
          stored_possibleCause (rows w2 ! k) = Some (possibleCause a) \<and>
          stored_recommendation (rows w2 ! k) = Some (recommendation a) \<and>
          stored_analysisTimestamp (rows w2 ! k) = Some (analysisTimestamp a)"
        by (rule instance_update_done [OF go(3) k1])
      have "\<forall>r. (k, r) \<in> set ins \<longrightarrow> \<not> js_gt (current r) APP_CURRENT_THRESHOLD"
        using k by force
      from loop_untouched [OF go(4) _ this] k1 l2 have "rows w' ! k = rows w2 ! k" by simp
      with upd analyzeHighCurrent_timestamp [OF go(2)] ik rt go(2) show ?thesis by auto
    qed
  qed
qed

lemma findAll_keeps:
  "DeviceTelemetry_findAll env w = (x, w') \<Longrightarrow> rows w' = rows w \<and> oracle_calls w' = oracle_calls w"
  by (auto simp add: DeviceTelemetry_findAll_def split: option.splits)

lemma post_api_telemetry_rejected:
  "store_fault env (store_ops w) = Some e \<Longrightarrow>
   post_api_telemetry env now dataBatch w = (Status500 e, w\<lparr>store_ops := Suc (store_ops w)\<rparr>)"
  by (simp add: post_api_telemetry_def DeviceTelemetry_bulkCreate_def)

lemma post_api_telemetry_stored:
  assumes "post_api_telemetry env now dataBatch w = (res, w')"
    and "store_fault env (store_ops w) = None"
  obtains x w2 where
    "analyzeInsertedRows env now
       (zip [length (rows w) ..< length (rows w) + length dataBatch] dataBatch)
       (w\<lparr>rows := rows w @ map new_row dataBatch, store_ops := Suc (store_ops w)\<rparr>) = (x, w2)"
    and "rows w' = rows w2" and "oracle_calls w' = oracle_calls w2"
    and "(\<exists>m. res = Status200 m) \<longrightarrow> (\<exists>u. x = Inr u)"
  using assms
  by (auto simp add: post_api_telemetry_def DeviceTelemetry_bulkCreate_def
      split: prod.splits sum.splits dest: findAll_keeps)

lemma in_inserted:
  "(j, r) \<in> set (zip [n ..< n + length xs] xs) \<longleftrightarrow> (\<exists>k < length xs. j = n + k \<and> r = xs ! k)"
proof
  assume "(j, r) \<in> set (zip [n ..< n + length xs] xs)"
  then show "\<exists>k < length xs. j = n + k \<and> r = xs ! k" by (auto simp add: in_set_zip)
next
  assume "\<exists>k < length xs. j = n + k \<and> r = xs ! k"
  then obtain k where k: "k < length xs" "j = n + k" "r = xs ! k" by blast
  then have "[n ..< n + length xs] ! k = j" by simp
  with k show "(j, r) \<in> set (zip [n ..< n + length xs] xs)"
    unfolding in_set_zip by (intro exI [of _ k]) simp
qed

lemma readings_new_row: "readings (new_row r) = r"
  by (simp add: readings_def new_row_def)

text \<open>
  C4. The handler inserts the whole batch first: if that insert fails, nothing else is done.
  Once it is accepted, whatever happens afterwards (oracle failures, store failures, a 500
  response), the rows that were in the table are unchanged, the rows of the batch are in
  the table with their readings, in order, and a row whose current does not exceed the
  threshold keeps its empty analysis columns; the oracle is called at most once per
  exceeding record. When the handler answers 200, it was called exactly once per exceeding
  record and each exceeding row carries the severity, cause, recommendation and time of
  a result \<open>analyzeHighCurrent\<close> returned for that record.
\<close>

theorem ingest_persists_then_analyses:
  assumes "post_api_telemetry env now dataBatch w = (res, w')"
  shows
    "(\<forall>e. store_fault env (store_ops w) = Some e \<longrightarrow>
        res = Status500 e \<and> rows w' = rows w \<and> oracle_calls w' = oracle_calls w) \<and>
     (store_fault env (store_ops w) = None \<longrightarrow>
        take (length (rows w)) (rows w') = rows w \<and>
        length (rows w) + length dataBatch \<le> length (rows w') \<and>
        map readings (take (length dataBatch) (drop (length (rows w)) (rows w'))) = dataBatch \<and>
        (\<forall>k < length dataBatch.
           \<not> js_gt (current (dataBatch ! k)) APP_CURRENT_THRESHOLD \<longrightarrow>
           rows w' ! (length (rows w) + k) = new_row (dataBatch ! k)) \<and>
        oracle_calls w' \<le> oracle_calls w +
          length (filter (\<lambda>r. js_gt (current r) APP_CURRENT_THRESHOLD) dataBatch) \<and>
        ((\<exists>m. res = Status200 m) \<longrightarrow>
           oracle_calls w' = oracle_calls w +
             length (filter (\<lambda>r. js_gt (current r) APP_CURRENT_THRESHOLD) dataBatch) \<and>
           (\<forall>k < length dataBatch.
              js_gt (current (dataBatch ! k)) APP_CURRENT_THRESHOLD \<longrightarrow>
              (\<exists>a wa wb.
                 analyzeHighCurrent env now
                   \<lparr>deviceId = deviceId (dataBatch ! k), timestamp = timestamp (dataBatch ! k),
                    temperature = temperature (dataBatch ! k), voltage = voltage (dataBatch ! k),
                    current = current (dataBatch ! k), gas = gas (dataBatch ! k),
                    CURRENT_THRESHOLD = APP_CURRENT_THRESHOLD\<rparr> wa = (a, wb) \<and>
                 stored_severity (rows w' ! (length (rows w) + k)) = Some (severity a) \<and>
                 stored_possibleCause (rows w' ! (length (rows w) + k)) = Some (possibleCause a) \<and>
                 stored_recommendation (rows w' ! (length (rows w) + k)) =
                   Some (recommendation a) \<and>
                 stored_analysisTimestamp (rows w' ! (length (rows w) + k)) = Some now))))"
proof (intro conjI allI impI)
  fix e assume "store_fault env (store_ops w) = Some e"
  from post_api_telemetry_rejected [OF this, of now dataBatch] assms
  show "res = Status500 e" and "rows w' = rows w" and "oracle_calls w' = oracle_calls w" by auto
next
  assume ok: "store_fault env (store_ops w) = None"
  define n where "n = length (rows w)"
  define ins where "ins = zip [n ..< n + length dataBatch] dataBatch"
  define w1 where "w1 = w\<lparr>rows := rows w @ map new_row dataBatch, store_ops := Suc (store_ops w)\<rparr>"
  from post_api_telemetry_stored [OF assms ok] obtain x w2 where
    loop: "analyzeInsertedRows env now ins w1 = (x, w2)"
    and rw: "rows w' = rows w2" and ow: "oracle_calls w' = oracle_calls w2"
    and fin: "(\<exists>m. res = Status200 m) \<longrightarrow> (\<exists>u. x = Inr u)"
    unfolding n_def ins_def w1_def by blast
  have l1: "length (rows w1) = n + length dataBatch" by (simp add: w1_def n_def)
  have o1: "oracle_calls w1 = oracle_calls w" by (simp add: w1_def)
  have old: "j < n \<Longrightarrow> rows w1 ! j = rows w ! j" for j by (simp add: w1_def n_def nth_append)
  have new: "k < length dataBatch \<Longrightarrow> rows w1 ! (n + k) = new_row (dataBatch ! k)" for k
    by (simp add: w1_def n_def nth_append)
  have snd_ins: "map snd ins = dataBatch" by (simp add: ins_def)
  have fst_ins: "map fst ins = [n ..< n + length dataBatch]" by (simp add: ins_def)
  have mem: "(j, r) \<in> set ins \<longleftrightarrow> (\<exists>k < length dataBatch. j = n + k \<and> r = dataBatch ! k)" for j r
    unfolding ins_def by (rule in_inserted)
  from loop_readings [OF loop] have len: "n + length dataBatch \<le> length (rows w2)"
    and rd: "\<And>j. j < n + length dataBatch \<Longrightarrow> readings (rows w2 ! j) = readings (rows w1 ! j)"
    using l1 by auto
  have untouched_old: "rows w2 ! j = rows w ! j" if "j < n" for j
  proof -
    have "\<forall>r. (j, r) \<in> set ins \<longrightarrow> \<not> js_gt (current r) APP_CURRENT_THRESHOLD"
      using that mem by auto
    from loop_untouched [OF loop _ this] that l1 old show ?thesis by simp
  qed
  show "take (length (rows w)) (rows w') = rows w"
    using len untouched_old by (intro nth_equalityI) (auto simp add: rw n_def)
  show "length (rows w) + length dataBatch \<le> length (rows w')"
    using len by (simp add: rw n_def)
  show "map readings (take (length dataBatch) (drop (length (rows w)) (rows w'))) = dataBatch"
  proof (intro nth_equalityI)
    show "length (map readings (take (length dataBatch) (drop (length (rows w)) (rows w')))) =
      length dataBatch" using len by (simp add: rw n_def)
  next
    fix k assume "k < length (map readings (take (length dataBatch) (drop (length (rows w)) (rows w'))))"
    then have k: "k < length dataBatch" by simp
    then have "readings (rows w2 ! (n + k)) = dataBatch ! k"
      using rd [of "n + k"] new [OF k] by (simp add: readings_new_row)
    then show "map readings (take (length dataBatch) (drop (length (rows w)) (rows w'))) ! k =
      dataBatch ! k" using k len by (simp add: rw n_def)
  qed
  show "rows w' ! (length (rows w) + k) = new_row (dataBatch ! k)"
    if "k < length dataBatch" and "\<not> js_gt (current (dataBatch ! k)) APP_CURRENT_THRESHOLD" for k
  proof -
    have "\<forall>r. (n + k, r) \<in> set ins \<longrightarrow> \<not> js_gt (current r) APP_CURRENT_THRESHOLD"
      using that mem by auto
    from loop_untouched [OF loop _ this] that(1) l1 new [OF that(1)] show ?thesis
      by (simp add: rw n_def)
  qed
  show "oracle_calls w' \<le> oracle_calls w +
      length (filter (\<lambda>r. js_gt (current r) APP_CURRENT_THRESHOLD) dataBatch)"
    using loop_calls [OF loop] by (simp add: ow o1 snd_ins)
  assume "\<exists>m. res = Status200 m"
  with fin obtain u where x: "x = Inr u" by blast
  show "oracle_calls w' = oracle_calls w +
      length (filter (\<lambda>r. js_gt (current r) APP_CURRENT_THRESHOLD) dataBatch)"
    using loop_calls [OF loop] x by (simp add: ow o1 snd_ins)
  fix k assume k: "k < length dataBatch"
    and ex: "js_gt (current (dataBatch ! k)) APP_CURRENT_THRESHOLD"
  have d: "distinct (map fst ins)" by (simp add: fst_ins)
  have b: "\<forall>p \<in> set ins. fst p < length (rows w1)"
    using mem l1 by (auto simp add: ins_def in_set_zip)
  have m: "(n + k, dataBatch ! k) \<in> set ins" using k mem by blast
  from loop_analysed [OF loop [unfolded x] d b m ex]
  show "\<exists>a wa wb.
      analyzeHighCurrent env now
        \<lparr>deviceId = deviceId (dataBatch ! k), timestamp = timestamp (dataBatch ! k),
         temperature = temperature (dataBatch ! k), voltage = voltage (dataBatch ! k),
         current = current (dataBatch ! k), gas = gas (dataBatch ! k),
         CURRENT_THRESHOLD = APP_CURRENT_THRESHOLD\<rparr> wa = (a, wb) \<and>
      stored_severity (rows w' ! (length (rows w) + k)) = Some (severity a) \<and>
      stored_possibleCause (rows w' ! (length (rows w) + k)) = Some (possibleCause a) \<and>
      stored_recommendation (rows w' ! (length (rows w) + k)) = Some (recommendation a) \<and>
      stored_analysisTimestamp (rows w' ! (length (rows w) + k)) = Some now"
    by (simp add: rw n_def)
qed

theorem ingest_persists_then_analyses_witness:
  "store_fault failing_update_env (store_ops empty_world) = None \<and>
   fst (post_api_telemetry failing_update_env 0 [inbound 120, inbound 10] empty_world) =
     Status500 (Error ''SQLITE_BUSY'' None) \<and>
   map readings (take 2 (rows (snd
     (post_api_telemetry failing_update_env 0 [inbound 120, inbound 10] empty_world)))) =
     [inbound 120, inbound 10] \<and>
   rows (snd (post_api_telemetry failing_update_env 0 [inbound 120, inbound 10] empty_world)) ! 1 =
     new_row (inbound 10) \<and>
   store_fault rate_limited_env (store_ops empty_world) = None \<and>
   fst (post_api_telemetry rate_limited_env 7 [inbound 120, inbound 10] empty_world) =
     Status200 ''Data stored successfully.'' \<and>
   oracle_calls (snd (post_api_telemetry rate_limited_env 7 [inbound 120, inbound 10] empty_world)) = 1 \<and>
   stored_analysisTimestamp
     (rows (snd (post_api_telemetry rate_limited_env 7 [inbound 120, inbound 10] empty_world)) ! 0) =
     Some 7 \<and>
   store_fault rejecting_env (store_ops empty_world) = Some (Error ''SQLITE_BUSY'' None) \<and>
   fst (post_api_telemetry rejecting_env 0 [inbound 120, inbound 10] empty_world) =
     Status500 (Error ''SQLITE_BUSY'' None) \<and>
   rows (snd (post_api_telemetry rejecting_env 0 [inbound 120, inbound 10] empty_world)) = [] \<and>
   oracle_calls (snd (post_api_telemetry rejecting_env 0 [inbound 120, inbound 10] empty_world)) = 0"
proof -
  let ?b = "[inbound 120, inbound 10]"
  let ?out = "post_api_telemetry failing_update_env 0 ?b empty_world"
  let ?ok = "post_api_telemetry rate_limited_env 7 ?b empty_world"
  let ?no = "post_api_telemetry rejecting_env 0 ?b empty_world"
  have l: "length (rows empty_world) = 0" and e: "rows empty_world = []"
    and o: "oracle_calls empty_world = 0"
    by (simp_all add: empty_world_def)
  have x0: "js_gt (current (?b ! 0)) APP_CURRENT_THRESHOLD"
    and x1: "\<not> js_gt (current (?b ! 1)) APP_CURRENT_THRESHOLD"
    by (simp_all add: inbound_def APP_CURRENT_THRESHOLD_def)
  have c: "length (filter (\<lambda>r. js_gt (current r) APP_CURRENT_THRESHOLD) ?b) = 1"
    by (simp add: inbound_def APP_CURRENT_THRESHOLD_def)
  have k0: "(0::nat) < length ?b" and k1: "(1::nat) < length ?b" by simp_all
  \<comment> \<open>the update of the first row fails\<close>
  have h: "store_fault failing_update_env (store_ops empty_world) = None"
    by (simp add: failing_update_env_def fault_at_second_def empty_world_def)
  have r: "fst ?out = Status500 (Error ''SQLITE_BUSY'' None)"
    by (simp add: post_api_telemetry_def DeviceTelemetry_bulkCreate_def failing_update_env_def
        fault_at_second_def empty_world_def upt_rec analyzeHighCurrent_oracle_fails
        rate_limited_oracle_def inbound_def APP_CURRENT_THRESHOLD_def instance_update_def)
  have p: "?out = (fst ?out, snd ?out)" by simp
  from ingest_persists_then_analyses [OF p] h
  have a: "map readings (take (length ?b) (drop (length (rows empty_world)) (rows (snd ?out)))) = ?b"
    and b: "\<forall>k < length ?b. \<not> js_gt (current (?b ! k)) APP_CURRENT_THRESHOLD \<longrightarrow>
        rows (snd ?out) ! (length (rows empty_world) + k) = new_row (?b ! k)"
    by blast+
  from b k1 x1 have b1: "rows (snd ?out) ! (length (rows empty_world) + 1) = new_row (?b ! 1)"
    by blast
  \<comment> \<open>every store operation succeeds\<close>
  have h2: "store_fault rate_limited_env (store_ops empty_world) = None"
    by (simp add: rate_limited_env_def no_fault_def)
  have r2: "fst ?ok = Status200 ''Data stored successfully.''"
    by (simp add: post_api_telemetry_def DeviceTelemetry_bulkCreate_def rate_limited_env_def
        no_fault_def empty_world_def upt_rec analyzeHighCurrent_oracle_fails
        rate_limited_oracle_def inbound_def APP_CURRENT_THRESHOLD_def instance_update_def
        DeviceTelemetry_findAll_def)
  have p2: "?ok = (fst ?ok, snd ?ok)" by simp
  from ingest_persists_then_analyses [OF p2] h2 r2
  have a2: "oracle_calls (snd ?ok) = oracle_calls empty_world +
        length (filter (\<lambda>r. js_gt (current r) APP_CURRENT_THRESHOLD) ?b)"
    and b2: "\<forall>k < length ?b. js_gt (current (?b ! k)) APP_CURRENT_THRESHOLD \<longrightarrow>
        (\<exists>a wa wb. analyzeHighCurrent rate_limited_env 7
           \<lparr>deviceId = deviceId (?b ! k), timestamp = timestamp (?b ! k),
            temperature = temperature (?b ! k), voltage = voltage (?b ! k),
            current = current (?b ! k), gas = gas (?b ! k),
            CURRENT_THRESHOLD = APP_CURRENT_THRESHOLD\<rparr> wa = (a, wb) \<and>
          stored_severity (rows (snd ?ok) ! (length (rows empty_world) + k)) = Some (severity a) \<and>
          stored_possibleCause (rows (snd ?ok) ! (length (rows empty_world) + k)) =
            Some (possibleCause a) \<and>
          stored_recommendation (rows (snd ?ok) ! (length (rows empty_world) + k)) =
            Some (recommendation a) \<and>
          stored_analysisTimestamp (rows (snd ?ok) ! (length (rows empty_world) + k)) = Some 7)"
    by blast+
  from b2 k0 x0 have t2: "stored_analysisTimestamp (rows (snd ?ok) ! (length (rows empty_world) + 0)) = Some 7"
    by blast
  \<comment> \<open>the bulk insert fails\<close>
  have h3: "store_fault rejecting_env (store_ops empty_world) = Some (Error ''SQLITE_BUSY'' None)"
    by (simp add: rejecting_env_def fault_at_first_def empty_world_def)
  have p3: "?no = (fst ?no, snd ?no)" by simp
  from ingest_persists_then_analyses [OF p3] h3
  have a3: "fst ?no = Status500 (Error ''SQLITE_BUSY'' None) \<and> rows (snd ?no) = rows empty_world \<and>
      oracle_calls (snd ?no) = oracle_calls empty_world"
    by blast
  from a b1 h r a2 t2 h2 r2 a3 h3 l e o c show ?thesis by (simp add: numeral_2_eq_2)
qed

end
